theory Spec2Isabelle
  imports Main
begin

section \<open>Data model\<close>

text \<open>
  The two commands \<^verbatim>\<open>remove-archived-delivery-key\<close> and
  \<^verbatim>\<open>remove-archived-active-flag\<close> share their data: content items fetched from
  the remote hub, the parsed command line, and the audit log. Definitions of the first
  command carry the suffix \<open>_key\<close>, those of the second the suffix \<open>_flag\<close>.
\<close>

datatype Status = ACTIVE | ARCHIVED | DELETED

text \<open>
  A JavaScript value that is a string, \<^verbatim>\<open>null\<close> or \<^verbatim>\<open>undefined\<close>: the
  delivery key and the label of an item. \<open>truthy\<close> is the test of \<^verbatim>\<open>if (v)\<close>,
  \<open>orEmpty\<close> is \<^verbatim>\<open>v || ''\<close>, and \<open>template\<close> is the text \<^verbatim>\<open>${v}\<close> of a
  template literal.
\<close>

datatype jsstring = Undefined | Null | Str string

fun truthy :: "jsstring \<Rightarrow> bool" where
  "truthy Undefined = False"
| "truthy Null = False"
| "truthy (Str s) = (s \<noteq> [])"

fun orEmpty :: "jsstring \<Rightarrow> string" where
  "orEmpty (Str s) = s"
| "orEmpty _ = []"

fun template :: "jsstring \<Rightarrow> string" where
  "template Undefined = ''undefined''"
| "template Null = ''null''"
| "template (Str s) = s"

fun template_Status :: "Status \<Rightarrow> string" where
  "template_Status ACTIVE = ''ACTIVE''"
| "template_Status ARCHIVED = ''ARCHIVED''"
| "template_Status DELETED = ''DELETED''"

text \<open>
  \<open>active\<close> is the truthiness of \<^verbatim>\<open>body.active\<close>; \<open>lastPublishedVersion\<close> is a
  number or absent, and the number \<open>0\<close> is falsy.
\<close>

record Meta =
  schema :: string
  deliveryKey :: jsstring

record Body =
  meta :: Meta
  active :: bool

record ContentItem =
  id_item :: string
  label :: jsstring
  status :: Status
  body :: Body
  lastPublishedVersion :: "nat option"

fun truthy_number :: "nat option \<Rightarrow> bool" where
  "truthy_number None = False"
| "truthy_number (Some n) = (n \<noteq> 0)"

text \<open>A thrown value, kept as the text its \<^verbatim>\<open>toString()\<close> gives.\<close>

datatype error = Thrown string

fun toString :: "error \<Rightarrow> string" where
  "toString (Thrown s) = s"

text \<open>
  An option that yargs delivers as one string or, when repeated, as an array of strings
  (\<^verbatim>\<open>string | string[]\<close>); absent is \<open>None\<close> of the option type around it.
\<close>

datatype strings = One string | Many "string list"

fun toArray :: "strings \<Rightarrow> string list" where
  "toArray (One s) = [s]"
| "toArray (Many ss) = ss"

text \<open>
  The parsed command line: the fields the handlers read, and the other entries of
  \<^verbatim>\<open>argv\<close> (the configuration parameters such as the client ID and secret).
\<close>

record Argv =
  argv_id :: "string option"
  argv_logFile :: "string option"
  argv_force :: bool
  argv_silent :: bool
  argv_ignoreError :: bool
  argv_hubId :: string
  argv_revertLog :: "string option"
  argv_repoId :: "strings option"
  argv_folderId :: "strings option"
  argv_name :: "strings option"
  argv_contentType :: "strings option"
  argv_others :: "(string \<times> string) list"

text \<open>JavaScript truthiness of an optional string and of a string-or-array option.\<close>

fun truthy_opt :: "string option \<Rightarrow> bool" where
  "truthy_opt None = False"
| "truthy_opt (Some s) = (s \<noteq> [])"

fun truthy_strings :: "strings option \<Rightarrow> bool" where
  "truthy_strings None = False"
| "truthy_strings (Some (One s)) = (s \<noteq> [])"
| "truthy_strings (Some (Many ss)) = True"

section \<open>Effects\<close>

text \<open>
  Every call to a collaborator is recorded, in program order, in one trace of events:
  console output, the yes/no question, the calls to the remote service and the write of
  the log file. The audit log itself is a list of typed lines held in memory until the
  write. The question helper and the write of the log file are taken to return; the
  calls to the remote service may throw.
\<close>

datatype call =
    ContentItemsGet string
  | HubsGet string
  | ContentRepositoriesList string
  | ContentRepositoriesGet string
  | FoldersGet string
  | ContentItemsList string Status
  | Unarchive ContentItem
  | Update ContentItem
  | Archive ContentItem
  | Publish ContentItem

text \<open>
  Modelled from the spec: the class \<^verbatim>\<open>ArchiveLog\<close> is not among the sources. The log
  is "an ordered sequence of typed lines (ACTION, COMMENT, WARN, ERROR) plus a header";
  \<^verbatim>\<open>addAction\<close>, \<^verbatim>\<open>addComment\<close>, \<^verbatim>\<open>warn\<close> and \<^verbatim>\<open>error\<close> append one line of
  their kind.
\<close>

datatype LogLine =
    ACTION string string
  | COMMENT string
  | WARN string error
  | ERROR string error

record ArchiveLog =
  title :: string
  items :: "LogLine list"

definition addAction :: "string \<Rightarrow> string \<Rightarrow> ArchiveLog \<Rightarrow> ArchiveLog" where
  "addAction action data lg = lg\<lparr>items := items lg @ [ACTION action data]\<rparr>"

definition addComment :: "string \<Rightarrow> ArchiveLog \<Rightarrow> ArchiveLog" where
  "addComment comment lg = lg\<lparr>items := items lg @ [COMMENT comment]\<rparr>"

definition warn :: "string \<Rightarrow> error \<Rightarrow> ArchiveLog \<Rightarrow> ArchiveLog" where
  "warn message e lg = lg\<lparr>items := items lg @ [WARN message e]\<rparr>"

definition error :: "string \<Rightarrow> error \<Rightarrow> ArchiveLog \<Rightarrow> ArchiveLog" where
  "error message e lg = lg\<lparr>items := items lg @ [ERROR message e]\<rparr>"

datatype event =
    Console string
  | ConsoleArgvEnv Argv "(string \<times> string) list"
  | ConsoleError error
  | Question string
  | Call call
  | WriteToFile string ArchiveLog

section \<open>Predicate filter\<close>

text \<open>
  \<^verbatim>\<open>equalsOrRegex\<close> is imported from a module that is not among the sources; it is a
  parameter \<open>eq\<close> of the filter, and may throw (an unparsable regular expression).

  \<^verbatim>\<open>Array.prototype.findIndex\<close> stops at the first element the predicate accepts, so a
  later pattern that would throw is never tried; \<^verbatim>\<open>Array.prototype.filter\<close> visits
  every element, and a throw on any of them leaves the whole filter.
\<close>

fun findIndex :: "('a \<Rightarrow> error + bool) \<Rightarrow> 'a list \<Rightarrow> error + int" where
  "findIndex p [] = Inr (- 1)"
| "findIndex p (x # xs) =
     (case p x of
        Inl e \<Rightarrow> Inl e
      | Inr True \<Rightarrow> Inr 0
      | Inr False \<Rightarrow>
          (case findIndex p xs of
             Inl e \<Rightarrow> Inl e
           | Inr i \<Rightarrow> Inr (if i = - 1 then - 1 else i + 1)))"

fun filter_js :: "('a \<Rightarrow> error + bool) \<Rightarrow> 'a list \<Rightarrow> error + 'a list" where
  "filter_js p [] = Inr []"
| "filter_js p (x # xs) =
     (case p x of
        Inl e \<Rightarrow> Inl e
      | Inr b \<Rightarrow>
          (case filter_js p xs of
             Inl e \<Rightarrow> Inl e
           | Inr ys \<Rightarrow> Inr (if b then x # ys else ys)))"

definition matchesAny :: "(string \<Rightarrow> string \<Rightarrow> error + bool) \<Rightarrow> string list \<Rightarrow> string \<Rightarrow> error + bool" where
  "matchesAny eq itemsArray v =
     (case findIndex (\<lambda>i. eq v i) itemsArray of
        Inl e \<Rightarrow> Inl e
      | Inr i \<Rightarrow> Inr (i \<noteq> - 1))"

record Located =
  contentItems :: "ContentItem list"
  missingContent :: bool

definition noContent :: Located where
  "noContent = \<lparr>contentItems = [], missingContent = False\<rparr>"

text \<open>
  \<^verbatim>\<open>filterContentItems\<close> of the two commands: first the items that carry the field
  the command removes, then the name patterns if given, else the content-type patterns
  if given. The \<^verbatim>\<open>catch\<close> prints the error and returns the empty selection. The
  result pairs the console output with the value returned.
\<close>

definition hasDeliveryKey :: "ContentItem \<Rightarrow> bool" where
  "hasDeliveryKey item = truthy (deliveryKey (meta (body item)))"

definition hasActive :: "ContentItem \<Rightarrow> bool" where
  "hasActive item = (active (body item) \<and> truthy_number (lastPublishedVersion item))"

definition filterContentItems_key ::
  "(string \<Rightarrow> string \<Rightarrow> error + bool) \<Rightarrow> strings option \<Rightarrow> strings option \<Rightarrow>
   ContentItem list \<Rightarrow> event list \<times> Located" where
  "filterContentItems_key eq name' contentType' items' =
     (let missing = False;
          contentItemsWithDeliveryKey = filter hasDeliveryKey items'
      in case name' of
        Some n \<Rightarrow>
          (case filter_js (\<lambda>item. matchesAny eq (toArray n) (orEmpty (label item))) contentItemsWithDeliveryKey of
             Inl e \<Rightarrow> ([ConsoleError e], noContent)
           | Inr contentItemsFiltered \<Rightarrow>
               ([], \<lparr>contentItems = contentItemsFiltered, missingContent = missing\<rparr>))
      | None \<Rightarrow>
          (case contentType' of
             Some t \<Rightarrow>
               (case filter_js (\<lambda>item. matchesAny eq (toArray t) (schema (meta (body item)))) contentItemsWithDeliveryKey of
                  Inl e \<Rightarrow> ([ConsoleError e], noContent)
                | Inr contentItemsFiltered \<Rightarrow>
                    ([], \<lparr>contentItems = contentItemsFiltered, missingContent = missing\<rparr>))
           | None \<Rightarrow> ([], \<lparr>contentItems = contentItemsWithDeliveryKey, missingContent = missing\<rparr>)))"

definition filterContentItems_flag ::
  "(string \<Rightarrow> string \<Rightarrow> error + bool) \<Rightarrow> strings option \<Rightarrow> strings option \<Rightarrow>
   ContentItem list \<Rightarrow> event list \<times> Located" where
  "filterContentItems_flag eq name' contentType' items' =
     (let missing = False;
          contentItemsWithActive = filter hasActive items'
      in case name' of
        Some n \<Rightarrow>
          (case filter_js (\<lambda>item. matchesAny eq (toArray n) (orEmpty (label item))) contentItemsWithActive of
             Inl e \<Rightarrow> ([ConsoleError e], noContent)
           | Inr contentItemsFiltered \<Rightarrow>
               ([], \<lparr>contentItems = contentItemsFiltered, missingContent = missing\<rparr>))
      | None \<Rightarrow>
          (case contentType' of
             Some t \<Rightarrow>
               (case filter_js (\<lambda>item. matchesAny eq (toArray t) (schema (meta (body item)))) contentItemsWithActive of
                  Inl e \<Rightarrow> ([ConsoleError e], noContent)
                | Inr contentItemsFiltered \<Rightarrow>
                    ([], \<lparr>contentItems = contentItemsFiltered, missingContent = missing\<rparr>))
           | None \<Rightarrow> ([], \<lparr>contentItems = contentItemsWithActive, missingContent = missing\<rparr>)))"

section \<open>Item locator\<close>

text \<open>
  The remote service as the locator sees it. A content repository and a folder are both
  used through \<^verbatim>\<open>related.contentItems.list\<close> only, which takes the status asked for;
  a hub through \<^verbatim>\<open>related.contentRepositories.list\<close>. Every call may throw. During
  the location of the items the service answers the same read in the same way, so the
  reads are functions of their arguments.
\<close>

record Listing =
  id_source :: string
  contentItems_list :: "Status \<Rightarrow> error + ContentItem list"

record Hub =
  id_hub :: string
  contentRepositories_list :: "error + Listing list"

record DynamicContent =
  contentItems_get :: "string \<Rightarrow> error + ContentItem"
  hubs_get :: "string \<Rightarrow> error + Hub"
  contentRepositories_get :: "string \<Rightarrow> error + Listing"
  folders_get :: "string \<Rightarrow> error + Listing"

text \<open>
  Modelled from the spec: the helper \<^verbatim>\<open>paginator\<close> is not among the sources. It is "a
  pagination helper that turns a listing capability into a full collected sequence", so
  it returns what the listing holds, or the listing's failure.
\<close>

definition paginator :: "error + 'a list \<Rightarrow> error + 'a list" where
  "paginator listing = listing"

text \<open>
  \<^verbatim>\<open>Promise.all\<close> over calls that are all issued at once: the values in the order of
  the calls, or a rejection. Of several rejections the model reports the first in call
  order.
\<close>

fun promiseAll :: "(error + 'a) list \<Rightarrow> error + 'a list" where
  "promiseAll [] = Inr []"
| "promiseAll (Inl e # rs) = Inl e"
| "promiseAll (Inr v # rs) = (case promiseAll rs of Inl e \<Rightarrow> Inl e | Inr vs \<Rightarrow> Inr (v # vs))"

text \<open>
  Lines 191 to 212 of \<^verbatim>\<open>getContentItems\<close> (157 to 178 in the active-flag command, the
  same text): the hub, the repositories named or else all of the hub, the folders named,
  and the archived items of the folders if a folder option is given, else of the
  repositories. Each listing pushes its items when it completes; \<open>sched\<close> is the order
  in which the listings complete.
\<close>

definition listArchived ::
  "DynamicContent \<Rightarrow> (ContentItem list list \<Rightarrow> ContentItem list list) \<Rightarrow> string \<Rightarrow>
   strings option \<Rightarrow> strings option \<Rightarrow> event list \<times> (error + ContentItem list)" where
  "listArchived client sched hubId repoId folderId =
     (case hubs_get client hubId of
        Inl e \<Rightarrow> ([Call (HubsGet hubId)], Inl e)
      | Inr hub \<Rightarrow>
          (let repoIds = (case repoId of Some r \<Rightarrow> toArray r | None \<Rightarrow> []);
               folderIds = (case folderId of Some f \<Rightarrow> toArray f | None \<Rightarrow> []);
               ev1 = [Call (HubsGet hubId)] @
                     (if repoId \<noteq> None then map (\<lambda>i. Call (ContentRepositoriesGet i)) repoIds
                      else [Call (ContentRepositoriesList (id_hub hub))])
           in case (if repoId \<noteq> None then promiseAll (map (contentRepositories_get client) repoIds)
                    else paginator (contentRepositories_list hub)) of
                Inl e \<Rightarrow> (ev1, Inl e)
              | Inr contentRepositories \<Rightarrow>
                  (let ev2 = ev1 @ (if folderId \<noteq> None then map (\<lambda>i. Call (FoldersGet i)) folderIds else [])
                   in case (if folderId \<noteq> None then promiseAll (map (folders_get client) folderIds)
                            else Inr []) of
                        Inl e \<Rightarrow> (ev2, Inl e)
                      | Inr folders \<Rightarrow>
                          (let sources = (if folderId \<noteq> None then folders else contentRepositories);
                               ev3 = ev2 @ map (\<lambda>source. Call (ContentItemsList (id_source source) ARCHIVED)) sources
                           in case promiseAll (map (\<lambda>source. paginator (contentItems_list source ARCHIVED)) sources) of
                                Inl e \<Rightarrow> (ev3, Inl e)
                              | Inr pushed \<Rightarrow> (ev3, Inr (concat (sched pushed)))))))"

text \<open>
  \<^verbatim>\<open>getContentItems\<close>: an item given by ID is fetched and returned as it is; otherwise
  the archived items are listed and filtered. The \<^verbatim>\<open>catch\<close> prints the error and
  returns the empty selection.
\<close>

definition getContentItems_key ::
  "DynamicContent \<Rightarrow> (ContentItem list list \<Rightarrow> ContentItem list list) \<Rightarrow>
   (string \<Rightarrow> string \<Rightarrow> error + bool) \<Rightarrow> string option \<Rightarrow> string \<Rightarrow> strings option \<Rightarrow>
   strings option \<Rightarrow> strings option \<Rightarrow> strings option \<Rightarrow> event list \<times> Located" where
  "getContentItems_key client sched eq id' hubId repoId folderId name' contentType' =
     (case id' of
        Some i \<Rightarrow>
          (case contentItems_get client i of
             Inl e \<Rightarrow> ([Call (ContentItemsGet i), ConsoleError e], noContent)
           | Inr item \<Rightarrow> ([Call (ContentItemsGet i)], \<lparr>contentItems = [item], missingContent = False\<rparr>))
      | None \<Rightarrow>
          (case listArchived client sched hubId repoId folderId of
             (evs, Inl e) \<Rightarrow> (evs @ [ConsoleError e], noContent)
           | (evs, Inr items') \<Rightarrow>
               (case filterContentItems_key eq name' contentType' items' of
                  (fevs, located) \<Rightarrow> (evs @ fevs, located))))"

definition getContentItems_flag ::
  "DynamicContent \<Rightarrow> (ContentItem list list \<Rightarrow> ContentItem list list) \<Rightarrow>
   (string \<Rightarrow> string \<Rightarrow> error + bool) \<Rightarrow> string option \<Rightarrow> string \<Rightarrow> strings option \<Rightarrow>
   strings option \<Rightarrow> strings option \<Rightarrow> strings option \<Rightarrow> event list \<times> Located" where
  "getContentItems_flag client sched eq id' hubId repoId folderId name' contentType' =
     (case id' of
        Some i \<Rightarrow>
          (case contentItems_get client i of
             Inl e \<Rightarrow> ([Call (ContentItemsGet i), ConsoleError e], noContent)
           | Inr item \<Rightarrow> ([Call (ContentItemsGet i)], \<lparr>contentItems = [item], missingContent = False\<rparr>))
      | None \<Rightarrow>
          (case listArchived client sched hubId repoId folderId of
             (evs, Inl e) \<Rightarrow> (evs @ [ConsoleError e], noContent)
           | (evs, Inr items') \<Rightarrow>
               (case filterContentItems_flag eq name' contentType' items' of
                  (fevs, located) \<Rightarrow> (evs @ fevs, located))))"

section \<open>Confirmation gate and batch mutator\<close>

text \<open>
  The calls that change an item (\<^verbatim>\<open>related.unarchive\<close>, \<^verbatim>\<open>related.update\<close>,
  \<^verbatim>\<open>related.archive\<close>, and \<^verbatim>\<open>publish\<close> of the publish queue) go to a remote service
  with a state \<open>'w\<close> of its own: a call returns an item or throws, and leaves a new state.
\<close>

type_synonym 'w remote = "'w \<Rightarrow> call \<Rightarrow> (error + ContentItem) \<times> 'w"

text \<open>The text \<^verbatim>\<open>${n}\<close> of a non-negative integer.\<close>

fun template_nat :: "nat \<Rightarrow> string" where
  "template_nat n =
     (if n < 10 then [char_of (48 + n)]
      else template_nat (n div 10) @ [char_of (48 + n mod 10)])"

declare template_nat.simps [simp del]

text \<open>\<^verbatim>\<open>String.prototype.replace\<close> with a string pattern: the first occurrence only.\<close>

fun replace :: "string \<Rightarrow> string \<Rightarrow> string \<Rightarrow> string" where
  "replace pat rep [] = (if pat = [] then rep else [])"
| "replace pat rep (c # cs) =
     (if take (length pat) (c # cs) = pat then rep @ drop (length pat) (c # cs)
      else c # replace pat rep cs)"

text \<open>The local variables of \<^verbatim>\<open>processItems\<close> while the loop runs, with the trace.\<close>

record 'w Loop =
  world :: 'w
  trace :: "event list"
  archiveLog :: ArchiveLog
  successCount :: nat

datatype 'w outcome = Returned 'w "event list" | Completed "'w Loop"

definition clearDeliveryKey :: "ContentItem \<Rightarrow> ContentItem" where
  "clearDeliveryKey item = item\<lparr>body := (body item)\<lparr>meta := (meta (body item))\<lparr>deliveryKey := Null\<rparr>\<rparr>\<rparr>"

text \<open>
  The \<^verbatim>\<open>try\<close> block of the delivery-key loop (lines 281 to 284) for one item: the
  state of the service afterwards, the calls made, the value of \<^verbatim>\<open>contentItems[i]\<close>
  when the block is left, and the value thrown, if any.
\<close>

definition tryItem_key ::
  "'w remote \<Rightarrow> 'w \<Rightarrow> ContentItem \<Rightarrow> 'w \<times> call list \<times> ContentItem \<times> error option" where
  "tryItem_key remote w item =
     (case remote w (Unarchive item) of
        (Inl e, w1) \<Rightarrow> (w1, [Unarchive item], item, Some e)
      | (Inr unarchived, w1) \<Rightarrow>
          (let cleared = clearDeliveryKey unarchived
           in case remote w1 (Update cleared) of
                (Inl e, w2) \<Rightarrow> (w2, [Unarchive item, Update cleared], cleared, Some e)
              | (Inr updated, w2) \<Rightarrow>
                  (case remote w2 (Archive updated) of
                     (Inl e, w3) \<Rightarrow>
                       (w3, [Unarchive item, Update cleared, Archive updated], updated, Some e)
                   | (Inr _, w3) \<Rightarrow>
                       (w3, [Unarchive item, Update cleared, Archive updated], updated, None))))"

text \<open>The loop of the delivery-key command (lines 278 to 305), over the items left.\<close>

fun loop_key :: "'w remote \<Rightarrow> bool \<Rightarrow> ContentItem list \<Rightarrow> 'w Loop \<Rightarrow> 'w Loop" where
  "loop_key remote ignoreError [] st = st"
| "loop_key remote ignoreError (item # rest) st =
     (let dk = deliveryKey (meta (body item))
      in case tryItem_key remote (world st) item of
           (w, calls, cur, None) \<Rightarrow>
             loop_key remote ignoreError rest
               (st\<lparr>world := w,
                   trace := trace st @ map Call calls,
                   archiveLog := addAction ''REMOVED-ARCHIVED-DELIVERY-KEY''
                     (id_item cur @ '':'' @ template dk @ ''\<newline>'') (archiveLog st),
                   successCount := successCount st + 1\<rparr>)
         | (w, calls, cur, Some e) \<Rightarrow>
             (let lg = addComment (toString e)
                         (addComment (''REMOVED-ARCHIVED-DELIVERY-KEY FAILED: '' @ id_item cur @ '':'' @ template dk)
                            (archiveLog st));
                  st' = st\<lparr>world := w, trace := trace st @ map Call calls\<rparr>
              in if ignoreError then
                   loop_key remote ignoreError rest
                     (st'\<lparr>archiveLog := warn
                        (''Failed to remove delivery key '' @ template dk @ '' and re-archive '' @
                         template (label cur) @ '' ('' @ id_item cur @ ''), current status is '' @
                         template_Status (status cur) @ '', continuing.'') e lg\<rparr>)
                 else
                   st'\<lparr>archiveLog := error
                        (''Failed to remove delivery key '' @ template dk @ '' and re-archive '' @
                         template (label cur) @ '' ('' @ id_item cur @ ''), current status is '' @
                         template_Status (status cur) @ '', aborting.'') e lg\<rparr>))"

text \<open>The question of the confirmation gate (lines 263 to 265, and 231 to 233).\<close>

definition question_key :: "bool \<Rightarrow> string" where
  "question_key allContent =
     (if allContent
      then ''Providing no ID or filter will remove delivery keys from all archived content-items! Are you sure you want to do this? (y/n)\<newline>''
      else ''Are you sure you want to remove delivery keys from these archived content-items? (y/n)\<newline>'')"

text \<open>
  \<^verbatim>\<open>processItems\<close> of the delivery-key command. \<open>asyncQuestion\<close> is the user's answer
  to the question put, \<open>timestamp\<close> the text of \<^verbatim>\<open>Date.now()\<close>.
\<close>

definition processItems_key ::
  "'w remote \<Rightarrow> (string \<Rightarrow> bool) \<Rightarrow> string \<Rightarrow> 'w \<Rightarrow> ContentItem list \<Rightarrow> bool \<Rightarrow> bool \<Rightarrow>
   string option \<Rightarrow> bool \<Rightarrow> bool \<Rightarrow> 'w outcome" where
  "processItems_key remote asyncQuestion timestamp w items' force silent logFile allContent ignoreError =
     (if length items' = 0 then Returned w [Console ''No delivery keys found in archived items.'']
      else
        (let listed = [Console ''The following content items in the archive will have the delivery keys removed:''] @
                      map (\<lambda>contentItem. Console ('' '' @ template (label contentItem) @ '' ('' @ id_item contentItem @ '')'')) items' @
                      [Console (''Total: '' @ template_nat (length items'))];
             question = question_key allContent
         in if \<not> force \<and> \<not> asyncQuestion question then Returned w (listed @ [Question question])
            else
              (let asked = listed @ (if \<not> force then [Question question] else []);
                   lg = \<lparr>title = ''Content Items Remove Archived Delivery Key Log - '' @ timestamp @ ''\<newline>'', items = []\<rparr>;
                   st = loop_key remote ignoreError items'
                          \<lparr>world = w, trace = asked, archiveLog = lg, successCount = 0\<rparr>;
                   written = (case logFile of
                                Some path \<Rightarrow>
                                  (if \<not> silent \<and> path \<noteq> []
                                   then [WriteToFile (replace ''<DATE>'' timestamp path) (archiveLog st)] else [])
                              | None \<Rightarrow> [])
               in Completed (st\<lparr>trace := trace st @ written @
                    [Console (''Remove archived delivery key from '' @ template_nat (successCount st) @ '' content items.'')]\<rparr>))))"

text \<open>
  The \<^verbatim>\<open>try\<close> block of the active-flag loop (lines 265 to 278) for one item. The calls
  to unarchive, update and archive are commented out in the source; what is left is the
  inner \<^verbatim>\<open>try\<close> around \<^verbatim>\<open>pubQueue.publish\<close>, whose \<^verbatim>\<open>catch\<close> adds a comment, and
  the action line. Nothing outside the inner \<^verbatim>\<open>try\<close> calls the service, so the block
  never leaves with a thrown value.
\<close>

definition tryItem_flag ::
  "'w remote \<Rightarrow> 'w \<Rightarrow> ContentItem \<Rightarrow> ArchiveLog \<Rightarrow> 'w \<times> call list \<times> ArchiveLog \<times> error option" where
  "tryItem_flag remote w item lg =
     (case remote w (Publish item) of
        (Inr _, w1) \<Rightarrow>
          (w1, [Publish item],
           addAction ''REMOVED-ARCHIVED-ACTIVE-FLAG'' (id_item item @ ''\<newline>'')
             (addComment (''Started publish for '' @ template (label item) @ ''.'') lg), None)
      | (Inl e, w1) \<Rightarrow>
          (w1, [Publish item],
           addAction ''REMOVED-ARCHIVED-ACTIVE-FLAG'' (id_item item @ ''\<newline>'')
             (addComment (''Failed to initiate publish for '' @ template (label item) @ '': '' @ toString e) lg), None))"

text \<open>The loop of the active-flag command (lines 264 to 296).\<close>

fun loop_flag :: "'w remote \<Rightarrow> bool \<Rightarrow> ContentItem list \<Rightarrow> 'w Loop \<Rightarrow> 'w Loop" where
  "loop_flag remote ignoreError [] st = st"
| "loop_flag remote ignoreError (item # rest) st =
     (case tryItem_flag remote (world st) item (archiveLog st) of
        (w, calls, lg, None) \<Rightarrow>
          loop_flag remote ignoreError rest
            (st\<lparr>world := w, trace := trace st @ map Call calls, archiveLog := lg,
                successCount := successCount st + 1\<rparr>)
      | (w, calls, lg, Some e) \<Rightarrow>
          (let lg' = addComment (toString e)
                       (addComment (''REMOVED-ARCHIVED-ACTIVE-FLAG FAILED: '' @ id_item item) lg);
               st' = st\<lparr>world := w, trace := trace st @ map Call calls\<rparr>
           in if ignoreError then
                loop_flag remote ignoreError rest
                  (st'\<lparr>archiveLog := warn
                     (''Failed to remove active flag and re-archive '' @ template (label item) @
                      '' ('' @ id_item item @ ''), current status is '' @
                      template_Status (status item) @ '', continuing.'') e lg'\<rparr>)
              else
                st'\<lparr>archiveLog := error
                     (''Failed to remove active flag and re-archive '' @ template (label item) @
                      '' ('' @ id_item item @ ''), current status is '' @
                      template_Status (status item) @ '', aborting.'') e lg'\<rparr>))"

definition question_flag :: "bool \<Rightarrow> string" where
  "question_flag allContent =
     (if allContent
      then ''Providing no ID or filter will remove active flags from all archived content-items! Are you sure you want to do this? (y/n)\<newline>''
      else ''Are you sure you want to remove active flags from these archived content-items? (y/n)\<newline>'')"

definition processItems_flag ::
  "'w remote \<Rightarrow> (string \<Rightarrow> bool) \<Rightarrow> string \<Rightarrow> 'w \<Rightarrow> ContentItem list \<Rightarrow> bool \<Rightarrow> bool \<Rightarrow>
   string option \<Rightarrow> bool \<Rightarrow> bool \<Rightarrow> 'w outcome" where
  "processItems_flag remote asyncQuestion timestamp w items' force silent logFile allContent ignoreError =
     (if length items' = 0 then Returned w [Console ''No active flags found in archived items.'']
      else
        (let listed = [Console ''The following content items in the archive will have the active flags removed:''] @
                      map (\<lambda>contentItem. Console ('' '' @ template (label contentItem) @ '' ('' @ id_item contentItem @ '')'')) items' @
                      [Console (''Total: '' @ template_nat (length items'))];
             question = question_flag allContent
         in if \<not> force \<and> \<not> asyncQuestion question then Returned w (listed @ [Question question])
            else
              (let asked = listed @ (if \<not> force then [Question question] else []);
                   lg = \<lparr>title = ''Content Items Remove Archived Active Flag Log - '' @ timestamp @ ''\<newline>'', items = []\<rparr>;
                   st = loop_flag remote ignoreError items'
                          \<lparr>world = w, trace = asked, archiveLog = lg, successCount = 0\<rparr>;
                   written = (case logFile of
                                Some path \<Rightarrow>
                                  (if \<not> silent \<and> path \<noteq> []
                                   then [WriteToFile (replace ''<DATE>'' timestamp path) (archiveLog st)] else [])
                              | None \<Rightarrow> [])
               in Completed (st\<lparr>trace := trace st @ written @
                    [Console (''Remove archived active flag from '' @ template_nat (successCount st) @ '' content items.'')]\<rparr>))))"

section \<open>Handlers\<close>

text \<open>The events of a run, and a run continued after earlier events.\<close>

fun events :: "'w outcome \<Rightarrow> event list" where
  "events (Returned w evs) = evs"
| "events (Completed st) = trace st"

fun after :: "event list \<Rightarrow> 'w outcome \<Rightarrow> 'w outcome" where
  "after evs (Returned w evs') = Returned w (evs @ evs')"
| "after evs (Completed st) = Completed (st\<lparr>trace := evs @ trace st\<rparr>)"

definition handler_key ::
  "DynamicContent \<Rightarrow> 'w remote \<Rightarrow> (ContentItem list list \<Rightarrow> ContentItem list list) \<Rightarrow>
   (string \<Rightarrow> string \<Rightarrow> error + bool) \<Rightarrow> (string \<Rightarrow> bool) \<Rightarrow> string \<Rightarrow> 'w \<Rightarrow> Argv \<Rightarrow> 'w outcome" where
  "handler_key client remote sched eq asyncQuestion timestamp w argv =
     (let allContent = (\<not> truthy_opt (argv_id argv) \<and> \<not> truthy_strings (argv_name argv) \<and>
                        \<not> truthy_strings (argv_contentType argv) \<and> \<not> truthy_opt (argv_revertLog argv) \<and>
                        \<not> truthy_strings (argv_folderId argv) \<and> \<not> truthy_strings (argv_repoId argv));
          ev1 = (if truthy_strings (argv_repoId argv) \<and> truthy_opt (argv_id argv)
                 then [Console ''ID of content item is specified, ignoring repository ID''] else [])
      in if truthy_opt (argv_id argv) \<and> truthy_strings (argv_name argv)
         then Returned w (ev1 @ [Console ''Please specify either a item name or an ID - not both.''])
         else
           (let ev2 = ev1 @
                  (if truthy_strings (argv_repoId argv) \<and> truthy_strings (argv_folderId argv)
                   then [Console ''Folder is specified, ignoring repository ID''] else []) @
                  (if allContent
                   then [Console ''No filter was given, removing delivery keys on all archived content''] else [])
            in case getContentItems_key client sched eq (argv_id argv) (argv_hubId argv) (argv_repoId argv)
                      (argv_folderId argv) (argv_name argv) (argv_contentType argv) of
                 (ev3, located) \<Rightarrow>
                   after (ev2 @ ev3)
                     (processItems_key remote asyncQuestion timestamp w (contentItems located)
                        (argv_force argv) (argv_silent argv) (argv_logFile argv) allContent
                        (argv_ignoreError argv))))"

text \<open>
  The handler of the active-flag command starts with
  \<^verbatim>\<open>console.log(argv, process.env)\<close>; \<open>env\<close> is the process environment.
\<close>

definition handler_flag ::
  "DynamicContent \<Rightarrow> 'w remote \<Rightarrow> (ContentItem list list \<Rightarrow> ContentItem list list) \<Rightarrow>
   (string \<Rightarrow> string \<Rightarrow> error + bool) \<Rightarrow> (string \<Rightarrow> bool) \<Rightarrow> string \<Rightarrow> (string \<times> string) list \<Rightarrow>
   'w \<Rightarrow> Argv \<Rightarrow> 'w outcome" where
  "handler_flag client remote sched eq asyncQuestion timestamp env w argv =
     (let ev0 = [ConsoleArgvEnv argv env];
          allContent = (\<not> truthy_opt (argv_id argv) \<and> \<not> truthy_strings (argv_name argv) \<and>
                        \<not> truthy_strings (argv_contentType argv) \<and> \<not> truthy_opt (argv_revertLog argv) \<and>
                        \<not> truthy_strings (argv_folderId argv) \<and> \<not> truthy_strings (argv_repoId argv));
          ev1 = ev0 @ (if truthy_strings (argv_repoId argv) \<and> truthy_opt (argv_id argv)
                 then [Console ''ID of content item is specified, ignoring repository ID''] else [])
      in if truthy_opt (argv_id argv) \<and> truthy_strings (argv_name argv)
         then Returned w (ev1 @ [Console ''Please specify either a item name or an ID - not both.''])
         else
           (let ev2 = ev1 @
                  (if truthy_strings (argv_repoId argv) \<and> truthy_strings (argv_folderId argv)
                   then [Console ''Folder is specified, ignoring repository ID''] else []) @
                  (if allContent
                   then [Console ''No filter was given, removing active flags on all archived content''] else [])
            in case getContentItems_flag client sched eq (argv_id argv) (argv_hubId argv) (argv_repoId argv)
                      (argv_folderId argv) (argv_name argv) (argv_contentType argv) of
                 (ev3, located) \<Rightarrow>
                   after (ev2 @ ev3)
                     (processItems_flag remote asyncQuestion timestamp w (contentItems located)
                        (argv_force argv) (argv_silent argv) (argv_logFile argv) allContent
                        (argv_ignoreError argv))))"

section \<open>Observations and example data\<close>

text \<open>
  What a finished run leaves: the success counter and the lines of the audit log (none
  when \<^verbatim>\<open>processItems\<close> returned before creating the log), the remote calls
  among the events, and which of the calls only read.
\<close>

fun finalCount :: "'w outcome \<Rightarrow> nat option" where
  "finalCount (Returned w evs) = None"
| "finalCount (Completed st) = Some (successCount st)"

fun finalLog :: "'w outcome \<Rightarrow> LogLine list" where
  "finalLog (Returned w evs) = []"
| "finalLog (Completed st) = items (archiveLog st)"

fun callsOf :: "event list \<Rightarrow> call list" where
  "callsOf [] = []"
| "callsOf (Call c # evs) = c # callsOf evs"
| "callsOf (ev # evs) = callsOf evs"

fun isRead :: "call \<Rightarrow> bool" where
  "isRead (Unarchive i) = False"
| "isRead (Update i) = False"
| "isRead (Archive i) = False"
| "isRead (Publish i) = False"
| "isRead c = True"

fun isAction :: "LogLine \<Rightarrow> bool" where
  "isAction (ACTION a d) = True"
| "isAction l = False"

fun isProblem :: "LogLine \<Rightarrow> bool" where
  "isProblem (WARN m e) = True"
| "isProblem (ERROR m e) = True"
| "isProblem l = False"

text \<open>
  The iterations of the delivery-key loop on a selection, from a state of the service:
  for each item the loop takes up, the state of the service before, the item, the calls
  made for it and the value thrown, if any. The loop takes up the next item after a
  success, and after a failure only with \<^verbatim>\<open>ignoreError\<close>.
\<close>

fun attempts_key ::
  "'w remote \<Rightarrow> bool \<Rightarrow> ContentItem list \<Rightarrow> 'w \<Rightarrow> ('w \<times> ContentItem \<times> call list \<times> error option) list" where
  "attempts_key remote ignoreError [] w = []"
| "attempts_key remote ignoreError (item # rest) w =
     (case tryItem_key remote w item of
        (w', calls, cur, None) \<Rightarrow> (w, item, calls, None) # attempts_key remote ignoreError rest w'
      | (w', calls, cur, Some e) \<Rightarrow>
          (w, item, calls, Some e) # (if ignoreError then attempts_key remote ignoreError rest w' else []))"

text \<open>
  The repositories and folders a client can hand out, and the assumption on the service
  that a listing asked for one status returns items of that status only.
\<close>

definition listingsOf :: "DynamicContent \<Rightarrow> Listing set" where
  "listingsOf client =
     {s. \<exists>i. contentRepositories_get client i = Inr s} \<union>
     {s. \<exists>i. folders_get client i = Inr s} \<union>
     {s. \<exists>i hub rs. hubs_get client i = Inr hub \<and> contentRepositories_list hub = Inr rs \<and> s \<in> set rs}"

definition honoursStatus :: "DynamicContent \<Rightarrow> bool" where
  "honoursStatus client =
     (\<forall>s \<in> listingsOf client. \<forall>st xs. contentItems_list s st = Inr xs \<longrightarrow> (\<forall>x \<in> set xs. status x = st))"

text \<open>
  The pattern part of the filter predicate: the name patterns if given, else the
  content-type patterns if given.
\<close>

definition matchesPatterns ::
  "(string \<Rightarrow> string \<Rightarrow> error + bool) \<Rightarrow> strings option \<Rightarrow> strings option \<Rightarrow> ContentItem \<Rightarrow> bool" where
  "matchesPatterns eq name' contentType' item =
     (case name' of
        Some n \<Rightarrow> matchesAny eq (toArray n) (orEmpty (label item)) = Inr True
      | None \<Rightarrow>
          (case contentType' of
             Some t \<Rightarrow> matchesAny eq (toArray t) (schema (meta (body item))) = Inr True
           | None \<Rightarrow> True))"

text \<open>
  Example data for the concrete runs below: archived, published items with a delivery
  key, a service on which every call for the item with one given ID throws at its first
  step, a user who answers yes, literal pattern matching, and listings that complete in
  the order they were started.
\<close>

definition archivedItem :: "string \<Rightarrow> jsstring \<Rightarrow> ContentItem" where
  "archivedItem i k =
     \<lparr>id_item = i, label = Str (''item '' @ i), status = ARCHIVED,
      body = \<lparr>meta = \<lparr>schema = ''http://example.com/banner'', deliveryKey = k\<rparr>, active = True\<rparr>,
      lastPublishedVersion = Some 1\<rparr>"

definition itemA :: ContentItem where "itemA = archivedItem ''A'' (Str ''key-a'')"
definition itemB :: ContentItem where "itemB = archivedItem ''B'' (Str ''key-b'')"
definition itemC :: ContentItem where "itemC = archivedItem ''C'' (Str ''key-c'')"
definition itemN :: ContentItem where "itemN = archivedItem ''N'' Undefined"

definition failingOn :: "string \<Rightarrow> unit remote" where
  "failingOn bad w c =
     (case c of
        Unarchive i \<Rightarrow>
          (if id_item i = bad then (Inl (Thrown ''Error: 500''), w) else (Inr (i\<lparr>status := ACTIVE\<rparr>), w))
      | Update i \<Rightarrow> (Inr i, w)
      | Archive i \<Rightarrow> (Inr (i\<lparr>status := ARCHIVED\<rparr>), w)
      | Publish i \<Rightarrow>
          (if id_item i = bad then (Inl (Thrown ''Error: 500''), w) else (Inr i, w))
      | other \<Rightarrow> (Inl (Thrown ''Error: 404''), w))"

definition yes :: "string \<Rightarrow> bool" where
  "yes question = True"

definition equalsLiteral :: "string \<Rightarrow> string \<Rightarrow> error + bool" where
  "equalsLiteral v compare = Inr (v = compare)"

definition inOrder :: "ContentItem list list \<Rightarrow> ContentItem list list" where
  "inOrder pushed = pushed"

definition repo1 :: Listing where
  "repo1 = \<lparr>id_source = ''repo1'',
            contentItems_list = (\<lambda>st. Inr (filter (\<lambda>i. status i = st) [itemA, itemN, itemB]))\<rparr>"

definition hubClient :: DynamicContent where
  "hubClient =
     \<lparr>contentItems_get = (\<lambda>i. if i = ''N'' then Inr itemN else Inl (Thrown ''Error: 404'')),
      hubs_get = (\<lambda>h. Inr \<lparr>id_hub = h, contentRepositories_list = Inr [repo1]\<rparr>),
      contentRepositories_get = (\<lambda>i. if i = ''repo1'' then Inr repo1 else Inl (Thrown ''Error: 404'')),
      folders_get = (\<lambda>i. Inl (Thrown ''Error: 404''))\<rparr>"

definition argvOf :: "string option \<Rightarrow> strings option \<Rightarrow> Argv" where
  "argvOf i n =
     \<lparr>argv_id = i, argv_logFile = Some ''log-<DATE>.txt'', argv_force = True, argv_silent = False,
      argv_ignoreError = False, argv_hubId = ''hub'', argv_revertLog = None, argv_repoId = None,
      argv_folderId = None, argv_name = n, argv_contentType = None,
      argv_others = [(''clientId'', ''client-1''), (''clientSecret'', ''secret-1'')]\<rparr>"

section \<open>Properties of the predicate filter\<close>

lemma filter_js_subset: "filter_js p xs = Inr ys \<Longrightarrow> set ys \<subseteq> set xs"
proof (induction xs arbitrary: ys)
  case Nil
  then show ?case by simp
next
  case (Cons x xs)
  then show ?case
    by (auto split: sum.splits if_splits)
qed

lemma filter_js_mem: "filter_js p xs = Inr ys \<Longrightarrow> x \<in> set ys \<Longrightarrow> x \<in> set xs"
  using filter_js_subset by fastforce

lemma filterContentItems_key_subset:
  "set (contentItems (snd (filterContentItems_key eq n t xs))) \<subseteq> set (filter hasDeliveryKey xs)"
  unfolding filterContentItems_key_def noContent_def Let_def
  by (auto split: option.splits sum.splits dest: filter_js_mem)

lemma filterContentItems_flag_subset:
  "set (contentItems (snd (filterContentItems_flag eq n t xs))) \<subseteq> set (filter hasActive xs)"
  unfolding filterContentItems_flag_def noContent_def Let_def
  by (auto split: option.splits sum.splits dest: filter_js_mem)

text \<open>
  Claim C6. When a name filter is supplied, the content-type filter is not consulted:
  \<^verbatim>\<open>filterContentItems\<close> with both a name option and any content-type option returns
  what it returns with the name option alone, in both commands (the selection and the
  console output of the \<^verbatim>\<open>catch\<close>).
\<close>

theorem name_filter_takes_precedence:
  "filterContentItems_key eq (Some n) t xs = filterContentItems_key eq (Some n) None xs
   \<and> filterContentItems_flag eq (Some n) t xs = filterContentItems_flag eq (Some n) None xs"
  by (simp add: filterContentItems_key_def filterContentItems_flag_def)


section \<open>Traces\<close>

lemma events_after: "events (after evs out) = evs @ events out"
  by (cases out) simp_all

lemma callsOf_append: "callsOf (xs @ ys) = callsOf xs @ callsOf ys"
  by (induction xs rule: callsOf.induct) simp_all

lemma callsOf_Call: "callsOf (map Call cs) = cs"
  by (induction cs) simp_all

lemma callsOf_Console: "callsOf (map (\<lambda>x. Console (f x)) xs) = []"
  by (induction xs) simp_all

text \<open>The \<^verbatim>\<open>try\<close> block of the delivery-key loop on the example items.\<close>

lemma tryItem_key_itemA:
  "tryItem_key (failingOn ''B'') () itemA =
     ((), [Unarchive itemA, Update (clearDeliveryKey (itemA\<lparr>status := ACTIVE\<rparr>)),
           Archive (clearDeliveryKey (itemA\<lparr>status := ACTIVE\<rparr>))],
      clearDeliveryKey (itemA\<lparr>status := ACTIVE\<rparr>), None)"
  by (simp add: tryItem_key_def Let_def failingOn_def itemA_def archivedItem_def clearDeliveryKey_def)

lemma tryItem_key_itemB:
  "tryItem_key (failingOn ''B'') () itemB = ((), [Unarchive itemB], itemB, Some (Thrown ''Error: 500''))"
  by (simp add: tryItem_key_def failingOn_def itemB_def archivedItem_def)

lemma tryItem_key_itemC:
  "tryItem_key (failingOn ''B'') () itemC =
     ((), [Unarchive itemC, Update (clearDeliveryKey (itemC\<lparr>status := ACTIVE\<rparr>)),
           Archive (clearDeliveryKey (itemC\<lparr>status := ACTIVE\<rparr>))],
      clearDeliveryKey (itemC\<lparr>status := ACTIVE\<rparr>), None)"
  by (simp add: tryItem_key_def Let_def failingOn_def itemC_def archivedItem_def clearDeliveryKey_def)

lemma tryItem_key_itemN:
  "tryItem_key (failingOn ''B'') () itemN =
     ((), [Unarchive itemN, Update (clearDeliveryKey (itemN\<lparr>status := ACTIVE\<rparr>)),
           Archive (clearDeliveryKey (itemN\<lparr>status := ACTIVE\<rparr>))],
      clearDeliveryKey (itemN\<lparr>status := ACTIVE\<rparr>), None)"
  by (simp add: tryItem_key_def Let_def failingOn_def itemN_def archivedItem_def clearDeliveryKey_def)

section \<open>Properties of the item locator\<close>

lemma getContentItems_key_enumerated:
  assumes "item \<in> set (contentItems (snd (getContentItems_key client sched eq None hubId repoId folderId n t)))"
  shows "hasDeliveryKey item"
proof (cases "listArchived client sched hubId repoId folderId")
  case (Pair evs r)
  show ?thesis
  proof (cases r)
    case (Inl e)
    with Pair assms show ?thesis
      by (simp add: getContentItems_key_def noContent_def)
  next
    case (Inr xs)
    with Pair assms
    have "item \<in> set (contentItems (snd (filterContentItems_key eq n t xs)))"
      by (simp add: getContentItems_key_def split: prod.splits)
    with filterContentItems_key_subset [of eq n t xs] show ?thesis
      by auto
  qed
qed

lemma getContentItems_flag_enumerated:
  assumes "item \<in> set (contentItems (snd (getContentItems_flag client sched eq None hubId repoId folderId n t)))"
  shows "hasActive item"
proof (cases "listArchived client sched hubId repoId folderId")
  case (Pair evs r)
  show ?thesis
  proof (cases r)
    case (Inl e)
    with Pair assms show ?thesis
      by (simp add: getContentItems_flag_def noContent_def)
  next
    case (Inr xs)
    with Pair assms
    have "item \<in> set (contentItems (snd (filterContentItems_flag eq n t xs)))"
      by (simp add: getContentItems_flag_def split: prod.splits)
    with filterContentItems_flag_subset [of eq n t xs] show ?thesis
      by auto
  qed
qed

lemma listArchived_hub:
  "listArchived hubClient inOrder ''hub'' None None =
     ([Call (HubsGet ''hub''), Call (ContentRepositoriesList ''hub''), Call (ContentItemsList ''repo1'' ARCHIVED)],
      Inr [itemA, itemN, itemB])"
  by (simp add: listArchived_def hubClient_def repo1_def paginator_def inOrder_def
        itemA_def itemB_def itemN_def archivedItem_def)

lemma selection_hub:
  "contentItems (snd (getContentItems_key hubClient inOrder equalsLiteral None ''hub'' None None None None)) =
     [itemA, itemB]"
  by (simp add: getContentItems_key_def listArchived_hub filterContentItems_key_def hasDeliveryKey_def
        itemA_def itemB_def itemN_def archivedItem_def)

text \<open>
  Claim C3, as amended. For every candidate set located by repository, folder or hub-wide
  enumeration, that is whenever no item ID is given, no item lacking the target field
  appears in the selection that \<^verbatim>\<open>getContentItems\<close> hands to the confirmation gate and
  the batch mutator: every selected item has a delivery key (delivery-key command),
  respectively an active flag and a last-published version (active-flag command). An item
  given by ID is handed on as fetched, without the filter.
\<close>

theorem enumerated_selection_has_field:
  "(\<forall>item \<in> set (contentItems (snd (getContentItems_key client sched eq None hubId repoId folderId n t))).
      hasDeliveryKey item)
   \<and> (\<forall>item \<in> set (contentItems (snd (getContentItems_flag client sched eq None hubId repoId folderId n t))).
      hasActive item)
   \<and> (\<forall>i item. contentItems_get client i = Inr item \<longrightarrow>
        contentItems (snd (getContentItems_key client sched eq (Some i) hubId repoId folderId n t)) = [item]
        \<and> contentItems (snd (getContentItems_flag client sched eq (Some i) hubId repoId folderId n t)) = [item])"
proof (intro conjI ballI allI impI)
  fix item
  assume "item \<in> set (contentItems (snd (getContentItems_key client sched eq None hubId repoId folderId n t)))"
  then show "hasDeliveryKey item"
    by (rule getContentItems_key_enumerated)
next
  fix item
  assume "item \<in> set (contentItems (snd (getContentItems_flag client sched eq None hubId repoId folderId n t)))"
  then show "hasActive item"
    by (rule getContentItems_flag_enumerated)
next
  fix i item
  assume "contentItems_get client i = Inr item"
  then show "contentItems (snd (getContentItems_key client sched eq (Some i) hubId repoId folderId n t)) = [item]"
    by (simp add: getContentItems_key_def)
next
  fix i item
  assume "contentItems_get client i = Inr item"
  then show "contentItems (snd (getContentItems_flag client sched eq (Some i) hubId repoId folderId n t)) = [item]"
    by (simp add: getContentItems_flag_def)
qed

theorem enumerated_selection_has_field_witness:
  "itemA \<in> set (contentItems (snd (getContentItems_key hubClient inOrder equalsLiteral None ''hub'' None None None None)))
   \<and> hasDeliveryKey itemA
   \<and> contentItems_get hubClient ''N'' = Inr itemN
   \<and> contentItems (snd (getContentItems_flag hubClient inOrder equalsLiteral (Some ''N'') ''hub'' None None None None)) = [itemN]"
proof -
  have mem: "itemA \<in> set (contentItems (snd (getContentItems_key hubClient inOrder equalsLiteral None ''hub'' None None None None)))"
    by (simp add: selection_hub)
  have got: "contentItems_get hubClient ''N'' = Inr itemN"
    by (simp add: hubClient_def)
  note all = enumerated_selection_has_field
      [of hubClient inOrder equalsLiteral "''hub''" None None None None]
  from all mem have "hasDeliveryKey itemA"
    by blast
  moreover from all got
  have "contentItems (snd (getContentItems_flag hubClient inOrder equalsLiteral (Some ''N'') ''hub'' None None None None)) = [itemN]"
    by blast
  ultimately show ?thesis using mem got by simp
qed

text \<open>
  The claim as stated includes items located by ID. Item \<open>N\<close> has no delivery key; given
  by ID it is the selection, and the handler goes on to unarchive, update and archive it.
\<close>

theorem selection_by_id_counterexample:
  "\<not> hasDeliveryKey itemN
   \<and> contentItems (snd (getContentItems_key hubClient inOrder equalsLiteral (Some ''N'') ''hub'' None None None None)) = [itemN]
   \<and> callsOf (events (handler_key hubClient (failingOn ''B'') inOrder equalsLiteral yes ''1700000000000'' ()
        (argvOf (Some ''N'') None))) =
      [ContentItemsGet ''N'', Unarchive itemN, Update (clearDeliveryKey (itemN\<lparr>status := ACTIVE\<rparr>)),
       Archive (clearDeliveryKey (itemN\<lparr>status := ACTIVE\<rparr>))]"
proof -
  have "\<not> hasDeliveryKey itemN"
    by (simp add: hasDeliveryKey_def itemN_def archivedItem_def)
  moreover have sel: "getContentItems_key hubClient inOrder equalsLiteral (Some ''N'') ''hub'' None None None None =
      ([Call (ContentItemsGet ''N'')], \<lparr>contentItems = [itemN], missingContent = False\<rparr>)"
    by (simp add: getContentItems_key_def hubClient_def)
  moreover from tryItem_key_itemN have "callsOf (events (handler_key hubClient (failingOn ''B'') inOrder equalsLiteral yes ''1700000000000'' ()
        (argvOf (Some ''N'') None))) =
      [ContentItemsGet ''N'', Unarchive itemN, Update (clearDeliveryKey (itemN\<lparr>status := ACTIVE\<rparr>)),
       Archive (clearDeliveryKey (itemN\<lparr>status := ACTIVE\<rparr>))]"
    by (simp add: handler_key_def sel argvOf_def Let_def events_after processItems_key_def
          callsOf_append callsOf_Call callsOf_Console)
  ultimately show ?thesis by simp
qed

section \<open>Properties of the batch mutator\<close>

text \<open>
  One item of the active-flag loop: whatever the publish call does, the block adds a
  comment and the action line and leaves without a thrown value.
\<close>

lemma tryItem_flag_cases:
  "tryItem_flag remote w item lg =
     (snd (remote w (Publish item)), [Publish item],
      lg\<lparr>items := items lg @
        [COMMENT (case fst (remote w (Publish item)) of
                    Inr v \<Rightarrow> ''Started publish for '' @ template (label item) @ ''.''
                  | Inl e \<Rightarrow> ''Failed to initiate publish for '' @ template (label item) @ '': '' @ toString e),
         ACTION ''REMOVED-ARCHIVED-ACTIVE-FLAG'' (id_item item @ ''\<newline>'')]\<rparr>, None)"
  by (cases "remote w (Publish item)")
     (auto simp: tryItem_flag_def addAction_def addComment_def split: sum.splits)

lemma loop_flag_step:
  "loop_flag remote ign (item # rest) st =
     loop_flag remote ign rest
       (st\<lparr>world := snd (remote (world st) (Publish item)),
           trace := trace st @ [Call (Publish item)],
           archiveLog := (archiveLog st)\<lparr>items := items (archiveLog st) @
             [COMMENT (case fst (remote (world st) (Publish item)) of
                    Inr v \<Rightarrow> ''Started publish for '' @ template (label item) @ ''.''
                  | Inl e \<Rightarrow> ''Failed to initiate publish for '' @ template (label item) @ '': '' @ toString e),
              ACTION ''REMOVED-ARCHIVED-ACTIVE-FLAG'' (id_item item @ ''\<newline>'')]\<rparr>,
           successCount := successCount st + 1\<rparr>)"
  by (simp add: tryItem_flag_cases)

lemma loop_flag_ignoreError: "loop_flag remote True xs st = loop_flag remote False xs st"
proof (induction xs arbitrary: st)
  case Nil
  show ?case by simp
next
  case (Cons x xs)
  show ?case unfolding loop_flag_step by (rule Cons.IH)
qed

lemma loop_flag_count: "successCount (loop_flag remote ign xs st) = successCount st + length xs"
proof (induction xs arbitrary: st)
  case Nil
  show ?case by simp
next
  case (Cons x xs)
  show ?case unfolding loop_flag_step by (simp add: Cons.IH)
qed

lemma loop_flag_actions:
  "filter isAction (items (archiveLog (loop_flag remote ign xs st))) =
     filter isAction (items (archiveLog st)) @
     map (\<lambda>item. ACTION ''REMOVED-ARCHIVED-ACTIVE-FLAG'' (id_item item @ ''\<newline>'')) xs"
proof (induction xs arbitrary: st)
  case Nil
  show ?case by simp
next
  case (Cons x xs)
  show ?case unfolding loop_flag_step by (simp add: Cons.IH)
qed

lemma loop_flag_problems:
  "filter isProblem (items (archiveLog (loop_flag remote ign xs st))) =
     filter isProblem (items (archiveLog st))"
proof (induction xs arbitrary: st)
  case Nil
  show ?case by simp
next
  case (Cons x xs)
  show ?case unfolding loop_flag_step by (simp add: Cons.IH)
qed

text \<open>
  Claim C7. With an empty selection \<^verbatim>\<open>processItems\<close> of either command prints its
  nothing-found message and returns: the message is the only event, so no question is
  put and no log file is written.
\<close>

theorem empty_selection_stops:
  "processItems_key remote asyncQuestion timestamp w [] force silent logFile allContent ignoreError =
     Returned w [Console ''No delivery keys found in archived items.'']
   \<and> processItems_flag remote asyncQuestion timestamp w [] force silent logFile allContent ignoreError =
     Returned w [Console ''No active flags found in archived items.'']"
  by (simp add: processItems_key_def processItems_flag_def)

text \<open>
  Claim C8. In the active-flag command a publish call that throws is caught by the inner
  handler: the loop records a COMMENT line, then still appends the action line and
  counts the item. So after a confirmed run on a non-empty selection the success counter
  is the number of selected items, the log holds one action line per item and no WARN or
  ERROR line, and the run is the same with and without \<^verbatim>\<open>ignoreError\<close>.
\<close>

theorem publish_failure_is_only_a_comment:
  assumes "xs \<noteq> []" and "force \<or> asyncQuestion (question_flag allContent)"
  shows "finalCount (processItems_flag remote asyncQuestion timestamp w xs force silent logFile allContent ignoreError)
           = Some (length xs)
     \<and> filter isAction (finalLog (processItems_flag remote asyncQuestion timestamp w xs force silent logFile allContent ignoreError))
           = map (\<lambda>item. ACTION ''REMOVED-ARCHIVED-ACTIVE-FLAG'' (id_item item @ ''\<newline>'')) xs
     \<and> filter isProblem (finalLog (processItems_flag remote asyncQuestion timestamp w xs force silent logFile allContent ignoreError))
           = []
     \<and> processItems_flag remote asyncQuestion timestamp w xs force silent logFile allContent True
           = processItems_flag remote asyncQuestion timestamp w xs force silent logFile allContent False
     \<and> (\<forall>item e st. fst (remote (world st) (Publish item)) = Inl e \<longrightarrow>
           items (archiveLog (loop_flag remote ignoreError [item] st)) =
             items (archiveLog st) @
             [COMMENT (''Failed to initiate publish for '' @ template (label item) @ '': '' @ toString e),
              ACTION ''REMOVED-ARCHIVED-ACTIVE-FLAG'' (id_item item @ ''\<newline>'')]
           \<and> successCount (loop_flag remote ignoreError [item] st) = successCount st + 1)"
proof -
  have go: "\<not> (\<not> force \<and> \<not> asyncQuestion (question_flag allContent))"
    using assms(2) by simp
  have "finalCount (processItems_flag remote asyncQuestion timestamp w xs force silent logFile allContent ignoreError)
           = Some (length xs)"
    using assms(1) go by (simp add: processItems_flag_def Let_def loop_flag_count del: loop_flag.simps)
  moreover have "filter isAction (finalLog (processItems_flag remote asyncQuestion timestamp w xs force silent logFile allContent ignoreError))
           = map (\<lambda>item. ACTION ''REMOVED-ARCHIVED-ACTIVE-FLAG'' (id_item item @ ''\<newline>'')) xs"
    using assms(1) go by (simp add: processItems_flag_def Let_def loop_flag_actions del: loop_flag.simps)
  moreover have "filter isProblem (finalLog (processItems_flag remote asyncQuestion timestamp w xs force silent logFile allContent ignoreError))
           = []"
    using assms(1) go by (simp add: processItems_flag_def Let_def loop_flag_problems del: loop_flag.simps)
  moreover have "processItems_flag remote asyncQuestion timestamp w xs force silent logFile allContent True
           = processItems_flag remote asyncQuestion timestamp w xs force silent logFile allContent False"
    by (simp add: processItems_flag_def Let_def loop_flag_ignoreError del: loop_flag.simps)
  moreover have "\<forall>item e st. fst (remote (world st) (Publish item)) = Inl e \<longrightarrow>
           items (archiveLog (loop_flag remote ignoreError [item] st)) =
             items (archiveLog st) @
             [COMMENT (''Failed to initiate publish for '' @ template (label item) @ '': '' @ toString e),
              ACTION ''REMOVED-ARCHIVED-ACTIVE-FLAG'' (id_item item @ ''\<newline>'')]
           \<and> successCount (loop_flag remote ignoreError [item] st) = successCount st + 1"
    unfolding loop_flag_step by simp
  ultimately show ?thesis by simp
qed

theorem publish_failure_is_only_a_comment_witness:
  "finalCount (processItems_flag (failingOn ''B'') yes ''1700000000000'' () [itemA, itemB, itemC]
      True False None False False) = Some 3
   \<and> fst (failingOn ''B'' () (Publish itemB)) = Inl (Thrown ''Error: 500'')
   \<and> items (archiveLog (loop_flag (failingOn ''B'') False [itemB]
        \<lparr>world = (), trace = [], archiveLog = \<lparr>title = ''t'', items = []\<rparr>, successCount = 0\<rparr>)) =
       [COMMENT ''Failed to initiate publish for item B: Error: 500'',
        ACTION ''REMOVED-ARCHIVED-ACTIVE-FLAG'' ''B\<newline>'']"
proof -
  have threw: "fst (failingOn ''B'' () (Publish itemB)) = Inl (Thrown ''Error: 500'')"
    by (simp add: failingOn_def itemB_def archivedItem_def)
  have nonempty: "[itemA, itemB, itemC] \<noteq> []"
    by simp
  have confirmed: "True \<or> yes (question_flag False)"
    by simp
  note run = publish_failure_is_only_a_comment
        [where xs = "[itemA, itemB, itemC]" and force = True and asyncQuestion = yes
           and allContent = False and remote = "failingOn ''B''" and timestamp = "''1700000000000''"
           and w = "()" and silent = False and logFile = None and ignoreError = False,
         OF nonempty confirmed]
  have counted: "finalCount (processItems_flag (failingOn ''B'') yes ''1700000000000'' ()
      [itemA, itemB, itemC] True False None False False) = Some 3"
    using run by simp
  from run have one: "\<And>item e st. fst (failingOn ''B'' (world st) (Publish item)) = Inl e \<Longrightarrow>
      items (archiveLog (loop_flag (failingOn ''B'') False [item] st)) =
        items (archiveLog st) @
        [COMMENT (''Failed to initiate publish for '' @ template (label item) @ '': '' @ toString e),
         ACTION ''REMOVED-ARCHIVED-ACTIVE-FLAG'' (id_item item @ ''\<newline>'')]"
    by blast
  have "items (archiveLog (loop_flag (failingOn ''B'') False [itemB]
        \<lparr>world = (), trace = [], archiveLog = \<lparr>title = ''t'', items = []\<rparr>, successCount = 0\<rparr>)) =
       [COMMENT ''Failed to initiate publish for item B: Error: 500'',
        ACTION ''REMOVED-ARCHIVED-ACTIVE-FLAG'' ''B\<newline>'']"
    using one [of "\<lparr>world = (), trace = [], archiveLog = \<lparr>title = ''t'', items = []\<rparr>, successCount = 0\<rparr>"
                  itemB "Thrown ''Error: 500''"] threw
    by (simp add: itemB_def archivedItem_def)
  with counted threw show ?thesis by simp
qed


text \<open>
  Claim C2, as amended. In the delivery-key command: for a selection \<open>[A, B, C]\<close> where
  the \<^verbatim>\<open>try\<close> block succeeds on \<open>A\<close> and throws on \<open>B\<close> (at the unarchive, the update
  or the archive call), with \<^verbatim>\<open>ignoreError\<close> false, a confirmed run leaves a log with
  the ACTION line of \<open>A\<close>, then two COMMENT lines and an ERROR line for \<open>B\<close>, and nothing
  for \<open>C\<close>; no remote call is made for \<open>C\<close>, and the success counter is 1.
\<close>

theorem first_failure_stops_key:
  assumes go: "force \<or> asyncQuestion (question_key allContent)"
      and A: "tryItem_key remote w A = (wA, callsA, A', None)"
      and B: "tryItem_key remote wA B = (wB, callsB, B', Some e)"
  shows "finalCount (processItems_key remote asyncQuestion timestamp w [A, B, C] force silent logFile allContent False)
           = Some 1
     \<and> finalLog (processItems_key remote asyncQuestion timestamp w [A, B, C] force silent logFile allContent False)
           = [ACTION ''REMOVED-ARCHIVED-DELIVERY-KEY''
                (id_item A' @ '':'' @ template (deliveryKey (meta (body A))) @ ''\<newline>''),
              COMMENT (''REMOVED-ARCHIVED-DELIVERY-KEY FAILED: '' @ id_item B' @ '':'' @
                       template (deliveryKey (meta (body B)))),
              COMMENT (toString e),
              ERROR (''Failed to remove delivery key '' @ template (deliveryKey (meta (body B))) @
                     '' and re-archive '' @ template (label B') @ '' ('' @ id_item B' @
                     ''), current status is '' @ template_Status (status B') @ '', aborting.'') e]
     \<and> callsOf (events (processItems_key remote asyncQuestion timestamp w [A, B, C] force silent logFile allContent False))
           = callsA @ callsB"
proof -
  have go': "\<not> (\<not> force \<and> \<not> asyncQuestion (question_key allContent))"
    using go by simp
  show ?thesis
    using go' A B
    by (simp add: processItems_key_def Let_def addAction_def addComment_def error_def
          callsOf_append callsOf_Call callsOf_Console split: option.splits)
qed

theorem first_failure_stops_key_witness:
  "finalCount (processItems_key (failingOn ''B'') yes ''1700000000000'' () [itemA, itemB, itemC]
      True False None False False) = Some 1
   \<and> finalLog (processItems_key (failingOn ''B'') yes ''1700000000000'' () [itemA, itemB, itemC]
      True False None False False) =
       [ACTION ''REMOVED-ARCHIVED-DELIVERY-KEY'' ''A:key-a\<newline>'',
        COMMENT ''REMOVED-ARCHIVED-DELIVERY-KEY FAILED: B:key-b'',
        COMMENT ''Error: 500'',
        ERROR ''Failed to remove delivery key key-b and re-archive item B (B), current status is ARCHIVED, aborting.''
          (Thrown ''Error: 500'')]"
proof -
  have confirmed: "True \<or> yes (question_key False)"
    by simp
  note run = first_failure_stops_key
      [where force = True and asyncQuestion = yes and allContent = False and remote = "failingOn ''B''"
         and w = "()" and A = itemA and B = itemB and C = itemC and timestamp = "''1700000000000''"
         and silent = False and logFile = None,
       OF confirmed tryItem_key_itemA tryItem_key_itemB]
  show ?thesis
    using run by (simp add: itemA_def itemB_def archivedItem_def clearDeliveryKey_def)
qed

text \<open>
  The claim as stated covers the active-flag command too. There a publish call that
  throws for \<open>B\<close> does not stop the loop: the counter ends at 3 and \<open>C\<close> has its ACTION
  line.
\<close>

theorem first_failure_stops_flag_counterexample:
  "fst (failingOn ''B'' () (Publish itemB)) = Inl (Thrown ''Error: 500'')
   \<and> finalCount (processItems_flag (failingOn ''B'') yes ''1700000000000'' () [itemA, itemB, itemC]
        True False None False False) = Some 3
   \<and> ACTION ''REMOVED-ARCHIVED-ACTIVE-FLAG'' ''C\<newline>'' \<in>
        set (finalLog (processItems_flag (failingOn ''B'') yes ''1700000000000'' () [itemA, itemB, itemC]
               True False None False False))"
proof -
  have "fst (failingOn ''B'' () (Publish itemB)) = Inl (Thrown ''Error: 500'')"
    by (simp add: failingOn_def itemB_def archivedItem_def)
  moreover have "finalCount (processItems_flag (failingOn ''B'') yes ''1700000000000'' ()
        [itemA, itemB, itemC] True False None False False) = Some 3"
    by (simp add: processItems_flag_def Let_def loop_flag_count del: loop_flag.simps)
  moreover have "filter isAction (finalLog (processItems_flag (failingOn ''B'') yes ''1700000000000'' ()
        [itemA, itemB, itemC] True False None False False)) =
      map (\<lambda>item. ACTION ''REMOVED-ARCHIVED-ACTIVE-FLAG'' (id_item item @ ''\<newline>'')) [itemA, itemB, itemC]"
    by (simp add: processItems_flag_def Let_def loop_flag_actions del: loop_flag.simps)
  then have "ACTION ''REMOVED-ARCHIVED-ACTIVE-FLAG'' (id_item itemC @ ''\<newline>'') \<in>
      set (filter isAction (finalLog (processItems_flag (failingOn ''B'') yes ''1700000000000'' ()
        [itemA, itemB, itemC] True False None False False)))"
    by simp
  then have "ACTION ''REMOVED-ARCHIVED-ACTIVE-FLAG'' ''C\<newline>'' \<in>
        set (finalLog (processItems_flag (failingOn ''B'') yes ''1700000000000'' () [itemA, itemB, itemC]
               True False None False False))"
    by (simp add: itemC_def archivedItem_def)
  ultimately show ?thesis by simp
qed

text \<open>
  Claim C5, as amended. In the delivery-key command: for a selection \<open>[A, B, C]\<close> where
  the \<^verbatim>\<open>try\<close> block succeeds on \<open>A\<close> and on \<open>C\<close> and throws on \<open>B\<close>, with
  \<^verbatim>\<open>ignoreError\<close> true, a confirmed run leaves a log with the ACTION line of \<open>A\<close>, two
  COMMENT lines and a WARN line for \<open>B\<close>, and the ACTION line of \<open>C\<close>, and the success
  counter is 2.
\<close>

theorem failures_are_skipped_key:
  assumes go: "force \<or> asyncQuestion (question_key allContent)"
      and A: "tryItem_key remote w A = (wA, callsA, A', None)"
      and B: "tryItem_key remote wA B = (wB, callsB, B', Some e)"
      and C: "tryItem_key remote wB C = (wC, callsC, C', None)"
  shows "finalCount (processItems_key remote asyncQuestion timestamp w [A, B, C] force silent logFile allContent True)
           = Some 2
     \<and> finalLog (processItems_key remote asyncQuestion timestamp w [A, B, C] force silent logFile allContent True)
           = [ACTION ''REMOVED-ARCHIVED-DELIVERY-KEY''
                (id_item A' @ '':'' @ template (deliveryKey (meta (body A))) @ ''\<newline>''),
              COMMENT (''REMOVED-ARCHIVED-DELIVERY-KEY FAILED: '' @ id_item B' @ '':'' @
                       template (deliveryKey (meta (body B)))),
              COMMENT (toString e),
              WARN (''Failed to remove delivery key '' @ template (deliveryKey (meta (body B))) @
                     '' and re-archive '' @ template (label B') @ '' ('' @ id_item B' @
                     ''), current status is '' @ template_Status (status B') @ '', continuing.'') e,
              ACTION ''REMOVED-ARCHIVED-DELIVERY-KEY''
                (id_item C' @ '':'' @ template (deliveryKey (meta (body C))) @ ''\<newline>'')]
     \<and> callsOf (events (processItems_key remote asyncQuestion timestamp w [A, B, C] force silent logFile allContent True))
           = callsA @ callsB @ callsC"
proof -
  have go': "\<not> (\<not> force \<and> \<not> asyncQuestion (question_key allContent))"
    using go by simp
  show ?thesis
    using go' A B C
    by (simp add: processItems_key_def Let_def addAction_def addComment_def warn_def
          callsOf_append callsOf_Call callsOf_Console split: option.splits)
qed


theorem failures_are_skipped_key_witness:
  "finalCount (processItems_key (failingOn ''B'') yes ''1700000000000'' () [itemA, itemB, itemC]
      True False None False True) = Some 2
   \<and> finalLog (processItems_key (failingOn ''B'') yes ''1700000000000'' () [itemA, itemB, itemC]
      True False None False True) =
       [ACTION ''REMOVED-ARCHIVED-DELIVERY-KEY'' ''A:key-a\<newline>'',
        COMMENT ''REMOVED-ARCHIVED-DELIVERY-KEY FAILED: B:key-b'',
        COMMENT ''Error: 500'',
        WARN ''Failed to remove delivery key key-b and re-archive item B (B), current status is ARCHIVED, continuing.''
          (Thrown ''Error: 500''),
        ACTION ''REMOVED-ARCHIVED-DELIVERY-KEY'' ''C:key-c\<newline>'']"
proof -
  have confirmed: "True \<or> yes (question_key False)"
    by simp
  note run = failures_are_skipped_key
      [where force = True and asyncQuestion = yes and allContent = False and remote = "failingOn ''B''"
         and w = "()" and A = itemA and B = itemB and C = itemC and timestamp = "''1700000000000''"
         and silent = False and logFile = None,
       OF confirmed tryItem_key_itemA tryItem_key_itemB tryItem_key_itemC]
  show ?thesis
    using run by (simp add: itemA_def itemB_def itemC_def archivedItem_def clearDeliveryKey_def)
qed

text \<open>
  In the active-flag command the same scenario, a publish call that throws for \<open>B\<close> with
  \<^verbatim>\<open>ignoreError\<close> true, ends with the counter at 3 and without any WARN line.
\<close>

theorem failures_are_skipped_flag_counterexample:
  "fst (failingOn ''B'' () (Publish itemB)) = Inl (Thrown ''Error: 500'')
   \<and> finalCount (processItems_flag (failingOn ''B'') yes ''1700000000000'' () [itemA, itemB, itemC]
        True False None False True) = Some 3
   \<and> filter isProblem (finalLog (processItems_flag (failingOn ''B'') yes ''1700000000000'' ()
        [itemA, itemB, itemC] True False None False True)) = []"
proof -
  have "fst (failingOn ''B'' () (Publish itemB)) = Inl (Thrown ''Error: 500'')"
    by (simp add: failingOn_def itemB_def archivedItem_def)
  moreover have "finalCount (processItems_flag (failingOn ''B'') yes ''1700000000000'' ()
        [itemA, itemB, itemC] True False None False True) = Some 3"
    by (simp add: processItems_flag_def Let_def loop_flag_count del: loop_flag.simps)
  moreover have "filter isProblem (finalLog (processItems_flag (failingOn ''B'') yes ''1700000000000'' ()
        [itemA, itemB, itemC] True False None False True)) = []"
    by (simp add: processItems_flag_def Let_def loop_flag_problems del: loop_flag.simps)
  ultimately show ?thesis by simp
qed

lemma loop_flag_calls:
  "callsOf (trace (loop_flag remote ign xs st)) = callsOf (trace st) @ map Publish xs"
proof (induction xs arbitrary: st)
  case Nil
  show ?case by simp
next
  case (Cons x xs)
  show ?case unfolding loop_flag_step by (simp add: Cons.IH callsOf_append)
qed

text \<open>
  Claim C4 at a failing input. The delivery-key loop calls unarchive, update and archive
  in this order (the definition \<open>tryItem_key\<close>). The active-flag loop does not: for one
  selected item and a service on which every call succeeds, the only remote call of the
  run is the publish call, and the item is logged as done.
\<close>

theorem flag_loop_only_publishes:
  "callsOf (events (processItems_flag (failingOn ''B'') yes ''1700000000000'' () [itemA]
      True False None False False)) = [Publish itemA]
   \<and> finalLog (processItems_flag (failingOn ''B'') yes ''1700000000000'' () [itemA]
      True False None False False) =
     [COMMENT ''Started publish for item A.'', ACTION ''REMOVED-ARCHIVED-ACTIVE-FLAG'' ''A\<newline>'']"
proof -
  have "callsOf (events (processItems_flag (failingOn ''B'') yes ''1700000000000'' () [itemA]
      True False None False False)) = [Publish itemA]"
    by (simp add: processItems_flag_def Let_def loop_flag_calls callsOf_append callsOf_Call callsOf_Console
        del: loop_flag.simps)
  moreover have "finalLog (processItems_flag (failingOn ''B'') yes ''1700000000000'' () [itemA]
      True False None False False) =
     [COMMENT ''Started publish for item A.'', ACTION ''REMOVED-ARCHIVED-ACTIVE-FLAG'' ''A\<newline>'']"
    by (simp add: processItems_flag_def Let_def tryItem_flag_cases failingOn_def itemA_def archivedItem_def)
  ultimately show ?thesis by simp
qed

section \<open>Properties of the handlers\<close>

text \<open>
  The remote calls of a run that gets past the guard \<^verbatim>\<open>id && name\<close>: those of the
  locator, then those of \<^verbatim>\<open>processItems\<close>; and the calls of a confirmed run of
  \<^verbatim>\<open>processItems\<close> in the active-flag command.
\<close>

lemma handler_key_calls:
  assumes "\<not> (truthy_opt (argv_id argv) \<and> truthy_strings (argv_name argv))"
  shows "callsOf (events (handler_key client remote sched eq asyncQuestion timestamp w argv)) =
     callsOf (fst (getContentItems_key client sched eq (argv_id argv) (argv_hubId argv) (argv_repoId argv)
                     (argv_folderId argv) (argv_name argv) (argv_contentType argv))) @
     callsOf (events (processItems_key remote asyncQuestion timestamp w
        (contentItems (snd (getContentItems_key client sched eq (argv_id argv) (argv_hubId argv) (argv_repoId argv)
                     (argv_folderId argv) (argv_name argv) (argv_contentType argv))))
        (argv_force argv) (argv_silent argv) (argv_logFile argv)
        (\<not> truthy_opt (argv_id argv) \<and> \<not> truthy_strings (argv_name argv) \<and>
         \<not> truthy_strings (argv_contentType argv) \<and> \<not> truthy_opt (argv_revertLog argv) \<and>
         \<not> truthy_strings (argv_folderId argv) \<and> \<not> truthy_strings (argv_repoId argv))
        (argv_ignoreError argv)))"
  using assms
  by (auto simp add: handler_key_def Let_def events_after callsOf_append split_beta)

lemma handler_flag_calls:
  assumes "\<not> (truthy_opt (argv_id argv) \<and> truthy_strings (argv_name argv))"
  shows "callsOf (events (handler_flag client remote sched eq asyncQuestion timestamp env w argv)) =
     callsOf (fst (getContentItems_flag client sched eq (argv_id argv) (argv_hubId argv) (argv_repoId argv)
                     (argv_folderId argv) (argv_name argv) (argv_contentType argv))) @
     callsOf (events (processItems_flag remote asyncQuestion timestamp w
        (contentItems (snd (getContentItems_flag client sched eq (argv_id argv) (argv_hubId argv) (argv_repoId argv)
                     (argv_folderId argv) (argv_name argv) (argv_contentType argv))))
        (argv_force argv) (argv_silent argv) (argv_logFile argv)
        (\<not> truthy_opt (argv_id argv) \<and> \<not> truthy_strings (argv_name argv) \<and>
         \<not> truthy_strings (argv_contentType argv) \<and> \<not> truthy_opt (argv_revertLog argv) \<and>
         \<not> truthy_strings (argv_folderId argv) \<and> \<not> truthy_strings (argv_repoId argv))
        (argv_ignoreError argv)))"
  using assms
  by (auto simp add: handler_flag_def Let_def events_after callsOf_append split_beta)

lemma processItems_flag_calls:
  assumes "xs \<noteq> []" and "force \<or> asyncQuestion (question_flag allContent)"
  shows "callsOf (events (processItems_flag remote asyncQuestion timestamp w xs force silent logFile allContent ign)) =
           map Publish xs"
proof -
  have go: "\<not> (\<not> force \<and> \<not> asyncQuestion (question_flag allContent))"
    using assms(2) by simp
  show ?thesis
    using assms(1) go
    by (simp add: processItems_flag_def Let_def loop_flag_calls
          callsOf_append callsOf_Call callsOf_Console split: option.splits del: loop_flag.simps)
qed

text \<open>
  Claim C9, as amended. When both operands of the handler's guard \<^verbatim>\<open>id && name\<close> are
  truthy (an ID that is a non-empty string, and a name option that is a non-empty string
  or an array) the handler of either command prints "Please specify either a item name or
  an ID - not both." and returns. Before it, the run has only printed: the warning that
  the repository ID is ignored if one was given and, in the active-flag command, the dump
  of the arguments and the environment. No item is located, no question is put, no remote
  call is made and no log file is written. When an ID is supplied and the guard does not
  hold (the ID or the name is the empty string, or no name is given), the handler does not
  return there: it goes on to fetch the item by that ID.
\<close>

theorem id_and_name_rejected:
  "(truthy_opt (argv_id argv) \<and> truthy_strings (argv_name argv) \<longrightarrow>
      handler_key client remote sched eq asyncQuestion timestamp w argv =
           Returned w ((if truthy_strings (argv_repoId argv)
                        then [Console ''ID of content item is specified, ignoring repository ID''] else []) @
                       [Console ''Please specify either a item name or an ID - not both.''])
    \<and> handler_flag client remote sched eq asyncQuestion timestamp env w argv =
           Returned w ([ConsoleArgvEnv argv env] @
                       (if truthy_strings (argv_repoId argv)
                        then [Console ''ID of content item is specified, ignoring repository ID''] else []) @
                       [Console ''Please specify either a item name or an ID - not both.'']))
   \<and> (\<forall>i. argv_id argv = Some i \<and> \<not> (truthy_opt (argv_id argv) \<and> truthy_strings (argv_name argv)) \<longrightarrow>
        Call (ContentItemsGet i) \<in> set (events (handler_key client remote sched eq asyncQuestion timestamp w argv))
      \<and> Call (ContentItemsGet i) \<in> set (events (handler_flag client remote sched eq asyncQuestion timestamp env w argv)))"
proof (intro conjI allI impI)
  assume "truthy_opt (argv_id argv) \<and> truthy_strings (argv_name argv)"
  then show "handler_key client remote sched eq asyncQuestion timestamp w argv =
           Returned w ((if truthy_strings (argv_repoId argv)
                        then [Console ''ID of content item is specified, ignoring repository ID''] else []) @
                       [Console ''Please specify either a item name or an ID - not both.''])"
    and "handler_flag client remote sched eq asyncQuestion timestamp env w argv =
           Returned w ([ConsoleArgvEnv argv env] @
                       (if truthy_strings (argv_repoId argv)
                        then [Console ''ID of content item is specified, ignoring repository ID''] else []) @
                       [Console ''Please specify either a item name or an ID - not both.''])"
    by (simp_all add: handler_key_def handler_flag_def Let_def)
next
  fix i
  assume h: "argv_id argv = Some i \<and> \<not> (truthy_opt (argv_id argv) \<and> truthy_strings (argv_name argv))"
  then have guard: "\<not> (truthy_opt (argv_id argv) \<and> truthy_strings (argv_name argv))"
    by (rule conjunct2)
  have "Call (ContentItemsGet i) \<in> set (fst (getContentItems_key client sched eq (argv_id argv) (argv_hubId argv)
          (argv_repoId argv) (argv_folderId argv) (argv_name argv) (argv_contentType argv)))"
    using h by (simp add: getContentItems_key_def split: sum.splits)
  with guard show "Call (ContentItemsGet i) \<in> set (events (handler_key client remote sched eq asyncQuestion timestamp w argv))"
    by (auto simp: handler_key_def Let_def events_after split_beta)
next
  fix i
  assume h: "argv_id argv = Some i \<and> \<not> (truthy_opt (argv_id argv) \<and> truthy_strings (argv_name argv))"
  then have guard: "\<not> (truthy_opt (argv_id argv) \<and> truthy_strings (argv_name argv))"
    by (rule conjunct2)
  have "Call (ContentItemsGet i) \<in> set (fst (getContentItems_flag client sched eq (argv_id argv) (argv_hubId argv)
          (argv_repoId argv) (argv_folderId argv) (argv_name argv) (argv_contentType argv)))"
    using h by (simp add: getContentItems_flag_def split: sum.splits)
  with guard show "Call (ContentItemsGet i) \<in> set (events (handler_flag client remote sched eq asyncQuestion timestamp env w argv))"
    by (auto simp: handler_flag_def Let_def events_after split_beta)
qed

theorem id_and_name_rejected_witness:
  "handler_key hubClient (failingOn ''B'') inOrder equalsLiteral yes ''1700000000000'' ()
     (argvOf (Some ''N'') (Some (One ''item N''))) =
   Returned () [Console ''Please specify either a item name or an ID - not both.'']
   \<and> handler_flag hubClient (failingOn ''B'') inOrder equalsLiteral yes ''1700000000000''
     [(''HOME'', ''/root'')] () (argvOf (Some ''N'') (Some (Many [''item N'', ''/^header/'']))) =
   Returned () [ConsoleArgvEnv (argvOf (Some ''N'') (Some (Many [''item N'', ''/^header/'']))) [(''HOME'', ''/root'')],
                Console ''Please specify either a item name or an ID - not both.'']
   \<and> Call (ContentItemsGet ''N'') \<in> set (events (handler_key hubClient (failingOn ''B'') inOrder equalsLiteral
        yes ''1700000000000'' () (argvOf (Some ''N'') (Some (One [])))))"
proof -
  have one: "truthy_opt (argv_id (argvOf (Some ''N'') (Some (One ''item N'')))) \<and>
      truthy_strings (argv_name (argvOf (Some ''N'') (Some (One ''item N''))))"
    by (simp add: argvOf_def)
  note key = id_and_name_rejected
      [of "argvOf (Some ''N'') (Some (One ''item N''))" hubClient "failingOn ''B''" inOrder equalsLiteral yes
          "''1700000000000''" "()" "[]",
       THEN conjunct1, rule_format, OF one, THEN conjunct1]
  have many: "truthy_opt (argv_id (argvOf (Some ''N'') (Some (Many [''item N'', ''/^header/''])))) \<and>
      truthy_strings (argv_name (argvOf (Some ''N'') (Some (Many [''item N'', ''/^header/'']))))"
    by (simp add: argvOf_def)
  note flag = id_and_name_rejected
      [of "argvOf (Some ''N'') (Some (Many [''item N'', ''/^header/'']))" hubClient "failingOn ''B''" inOrder
          equalsLiteral yes "''1700000000000''" "()" "[(''HOME'', ''/root'')]",
       THEN conjunct1, rule_format, OF many, THEN conjunct2]
  have empty: "argv_id (argvOf (Some ''N'') (Some (One []))) = Some ''N'' \<and>
      \<not> (truthy_opt (argv_id (argvOf (Some ''N'') (Some (One [])))) \<and>
         truthy_strings (argv_name (argvOf (Some ''N'') (Some (One [])))))"
    by (simp add: argvOf_def)
  note fetched = id_and_name_rejected
      [of "argvOf (Some ''N'') (Some (One []))" hubClient "failingOn ''B''" inOrder equalsLiteral yes
          "''1700000000000''" "()" "[]",
       THEN conjunct2, rule_format, OF empty, THEN conjunct1]
  have r1: "\<not> truthy_strings (argv_repoId (argvOf (Some ''N'') (Some (One ''item N''))))"
    and r2: "\<not> truthy_strings (argv_repoId (argvOf (Some ''N'') (Some (Many [''item N'', ''/^header/'']))))"
    by (simp_all add: argvOf_def)
  from key r1 have k: "handler_key hubClient (failingOn ''B'') inOrder equalsLiteral yes ''1700000000000'' ()
     (argvOf (Some ''N'') (Some (One ''item N''))) =
   Returned () [Console ''Please specify either a item name or an ID - not both.'']"
    by simp
  from flag r2 have f: "handler_flag hubClient (failingOn ''B'') inOrder equalsLiteral yes ''1700000000000''
     [(''HOME'', ''/root'')] () (argvOf (Some ''N'') (Some (Many [''item N'', ''/^header/'']))) =
   Returned () [ConsoleArgvEnv (argvOf (Some ''N'') (Some (Many [''item N'', ''/^header/'']))) [(''HOME'', ''/root'')],
                Console ''Please specify either a item name or an ID - not both.'']"
    by simp
  from k f fetched show ?thesis by simp
qed

text \<open>
  The claim as stated covers every supplied ID and name. With the ID \<open>N\<close> and a name
  option that is the empty string, both supplied, the handlers fetch item \<open>N\<close> and go
  on to change it; with an ID that is the empty string and a name, the handler asks the
  service for the item with the empty ID.
\<close>

theorem empty_id_or_name_counterexample:
  "argv_id (argvOf (Some ''N'') (Some (One []))) = Some ''N''
   \<and> argv_name (argvOf (Some ''N'') (Some (One []))) = Some (One [])
   \<and> callsOf (events (handler_key hubClient (failingOn ''B'') inOrder equalsLiteral yes ''1700000000000'' ()
        (argvOf (Some ''N'') (Some (One []))))) =
      [ContentItemsGet ''N'', Unarchive itemN, Update (clearDeliveryKey (itemN\<lparr>status := ACTIVE\<rparr>)),
       Archive (clearDeliveryKey (itemN\<lparr>status := ACTIVE\<rparr>))]
   \<and> callsOf (events (handler_flag hubClient (failingOn ''B'') inOrder equalsLiteral yes ''1700000000000'' []
        () (argvOf (Some ''N'') (Some (One []))))) =
      [ContentItemsGet ''N'', Publish itemN]
   \<and> callsOf (events (handler_key hubClient (failingOn ''B'') inOrder equalsLiteral yes ''1700000000000'' ()
        (argvOf (Some []) (Some (One ''item N''))))) =
      [ContentItemsGet []]"
proof -
  have sel: "getContentItems_key hubClient inOrder equalsLiteral (Some ''N'') ''hub'' None None (Some (One [])) None =
      ([Call (ContentItemsGet ''N'')], \<lparr>contentItems = [itemN], missingContent = False\<rparr>)"
    by (simp add: getContentItems_key_def hubClient_def)
  have key: "callsOf (events (handler_key hubClient (failingOn ''B'') inOrder equalsLiteral yes ''1700000000000'' ()
        (argvOf (Some ''N'') (Some (One []))))) =
      [ContentItemsGet ''N'', Unarchive itemN, Update (clearDeliveryKey (itemN\<lparr>status := ACTIVE\<rparr>)),
       Archive (clearDeliveryKey (itemN\<lparr>status := ACTIVE\<rparr>))]"
    by (simp add: handler_key_def sel tryItem_key_itemN argvOf_def Let_def events_after processItems_key_def
          callsOf_append callsOf_Call callsOf_Console)
  have sel_flag: "getContentItems_flag hubClient inOrder equalsLiteral (Some ''N'') ''hub'' None None (Some (One [])) None =
      ([Call (ContentItemsGet ''N'')], \<lparr>contentItems = [itemN], missingContent = False\<rparr>)"
    by (simp add: getContentItems_flag_def hubClient_def)
  have guard: "\<not> (truthy_opt (argv_id (argvOf (Some ''N'') (Some (One [])))) \<and>
      truthy_strings (argv_name (argvOf (Some ''N'') (Some (One [])))))"
    by (simp add: argvOf_def)
  have run: "callsOf (events (processItems_flag (failingOn ''B'') yes ''1700000000000'' () [itemN]
      True False (Some ''log-<DATE>.txt'') False False)) = map Publish [itemN]"
    by (rule processItems_flag_calls) simp_all
  have flag: "callsOf (events (handler_flag hubClient (failingOn ''B'') inOrder equalsLiteral yes ''1700000000000'' []
        () (argvOf (Some ''N'') (Some (One []))))) =
      [ContentItemsGet ''N'', Publish itemN]"
    unfolding handler_flag_calls [OF guard]
    by (simp add: argvOf_def sel_flag run)
  have sel_empty: "getContentItems_key hubClient inOrder equalsLiteral (Some []) ''hub'' None None (Some (One ''item N'')) None =
      ([Call (ContentItemsGet []), ConsoleError (Thrown ''Error: 404'')], noContent)"
    by (simp add: getContentItems_key_def hubClient_def)
  have empty: "callsOf (events (handler_key hubClient (failingOn ''B'') inOrder equalsLiteral yes ''1700000000000'' ()
        (argvOf (Some []) (Some (One ''item N''))))) =
      [ContentItemsGet []]"
    by (simp add: handler_key_def sel_empty argvOf_def Let_def events_after processItems_key_def noContent_def)
  from key flag empty show ?thesis
    by (simp add: argvOf_def)
qed

lemma handler_flag_first_event:
  "\<exists>rest. events (handler_flag client remote sched eq asyncQuestion timestamp env w argv) =
          ConsoleArgvEnv argv env # rest"
  by (simp add: handler_flag_def Let_def events_after split: prod.splits)

text \<open>
  Claim C10. On every invocation the handler of the active-flag command first passes the
  whole \<open>argv\<close> record and the whole process environment to \<^verbatim>\<open>console.log\<close>: it is
  the first event of every run, before any other output and before any call. Runs under
  different environments therefore differ in their console output, whatever else they
  share.
\<close>

theorem environment_is_printed_first:
  "(\<exists>rest. events (handler_flag client remote sched eq asyncQuestion timestamp env w argv) =
             ConsoleArgvEnv argv env # rest)
   \<and> (env \<noteq> env' \<longrightarrow>
        events (handler_flag client remote sched eq asyncQuestion timestamp env w argv) \<noteq>
        events (handler_flag client' remote' sched' eq' asyncQuestion' timestamp' env' w' argv'))"
proof (intro conjI impI)
  show "\<exists>rest. events (handler_flag client remote sched eq asyncQuestion timestamp env w argv) =
             ConsoleArgvEnv argv env # rest"
    by (rule handler_flag_first_event)
next
  assume differ: "env \<noteq> env'"
  from handler_flag_first_event [of client remote sched eq asyncQuestion timestamp env w argv]
  obtain rest where one:
    "events (handler_flag client remote sched eq asyncQuestion timestamp env w argv) = ConsoleArgvEnv argv env # rest"
    by (rule exE)
  from handler_flag_first_event [of client' remote' sched' eq' asyncQuestion' timestamp' env' w' argv']
  obtain rest' where two:
    "events (handler_flag client' remote' sched' eq' asyncQuestion' timestamp' env' w' argv') = ConsoleArgvEnv argv' env' # rest'"
    by (rule exE)
  from differ show "events (handler_flag client remote sched eq asyncQuestion timestamp env w argv) \<noteq>
        events (handler_flag client' remote' sched' eq' asyncQuestion' timestamp' env' w' argv')"
    unfolding one two by simp
qed

theorem environment_is_printed_first_witness:
  "events (handler_flag hubClient (failingOn ''B'') inOrder equalsLiteral yes ''1700000000000''
             [(''DC_CLIENT_SECRET'', ''one'')] () (argvOf None None)) \<noteq>
   events (handler_flag hubClient (failingOn ''B'') inOrder equalsLiteral yes ''1700000000000''
             [(''DC_CLIENT_SECRET'', ''two'')] () (argvOf None None))"
proof -
  have "[(''DC_CLIENT_SECRET'', ''one'')] \<noteq> [(''DC_CLIENT_SECRET'', ''two'')]"
    by simp
  with environment_is_printed_first
        [of hubClient "failingOn ''B''" inOrder equalsLiteral yes "''1700000000000''"
            "[(''DC_CLIENT_SECRET'', ''one'')]" "()" "argvOf None None"
            "[(''DC_CLIENT_SECRET'', ''two'')]" hubClient "failingOn ''B''" inOrder equalsLiteral yes
            "''1700000000000''" "()" "argvOf None None"]
  show ?thesis by blast
qed

section \<open>Archived status across a run\<close>

lemma tryItem_key_shape:
  assumes "tryItem_key remote w item = (w', cs, cur, r)"
  shows "cs = [Unarchive item]
       \<or> (\<exists>u. cs = [Unarchive item, Update (clearDeliveryKey u)])
       \<or> (\<exists>u v. cs = [Unarchive item, Update (clearDeliveryKey u), Archive v])"
  using assms
  by (auto simp: tryItem_key_def Let_def split: prod.splits sum.splits)

lemma tryItem_key_success:
  assumes "tryItem_key remote w item = (w', cs, cur, None)"
  shows "\<exists>u v x w1 w2.
           remote w (Unarchive item) = (Inr u, w1)
         \<and> remote w1 (Update (clearDeliveryKey u)) = (Inr v, w2)
         \<and> remote w2 (Archive v) = (Inr x, w')
         \<and> cs = [Unarchive item, Update (clearDeliveryKey u), Archive v]"
  using assms
  by (auto simp: tryItem_key_def Let_def split: prod.splits sum.splits)

lemma loop_key_trace:
  "trace (loop_key remote ign xs st) =
     trace st @ map Call (concat (map (\<lambda>(w, item, cs, r). cs) (attempts_key remote ign xs (world st))))"
proof (induction xs arbitrary: st)
  case Nil
  show ?case by simp
next
  case (Cons x xs)
  show ?case
  proof (cases "tryItem_key remote (world st) x")
    case (fields w' cs cur r)
    with Cons.IH show ?thesis
      by (cases r; cases ign) (simp_all add: Let_def)
  qed
qed

lemma loop_key_count:
  "successCount (loop_key remote ign xs st) =
     successCount st + length (filter (\<lambda>(w, item, cs, r). r = None) (attempts_key remote ign xs (world st)))"
proof (induction xs arbitrary: st)
  case Nil
  show ?case by simp
next
  case (Cons x xs)
  show ?case
  proof (cases "tryItem_key remote (world st) x")
    case (fields w' cs cur r)
    with Cons.IH show ?thesis
      by (cases r; cases ign) (simp_all add: Let_def)
  qed
qed

lemma attempts_key_items:
  "(w0, item, cs, r) \<in> set (attempts_key remote ign xs w) \<Longrightarrow>
     item \<in> set xs \<and> (\<exists>w' cur. tryItem_key remote w0 item = (w', cs, cur, r))"
proof (induction xs arbitrary: w)
  case Nil
  then show ?case by simp
next
  case (Cons x xs)
  show ?case
  proof (cases "tryItem_key remote w x")
    case (fields w' cs' cur r')
    with Cons.prems Cons.IH show ?thesis
      by (cases r') (auto split: if_splits)
  qed
qed


lemma promiseAll_Inr:
  "promiseAll (map f xs) = Inr vs \<Longrightarrow> v \<in> set vs \<Longrightarrow> \<exists>x \<in> set xs. f x = Inr v"
proof (induction xs arbitrary: vs)
  case Nil
  then show ?case by simp
next
  case (Cons x xs)
  show ?case
  proof (cases "f x")
    case (Inl e)
    with Cons.prems show ?thesis by simp
  next
    case (Inr y)
    with Cons.prems Cons.IH show ?thesis
      by (auto split: sum.splits)
  qed
qed

lemma listArchived_sources:
  assumes "listArchived client sched hubId repoId folderId = (evs, Inr items')"
  shows "\<exists>sources pushed. set sources \<subseteq> listingsOf client
           \<and> promiseAll (map (\<lambda>source. contentItems_list source ARCHIVED) sources) = Inr pushed
           \<and> items' = concat (sched pushed)"
proof (cases "hubs_get client hubId")
  case (Inl e)
  with assms show ?thesis by (simp add: listArchived_def)
next
  case hub: (Inr hub)
  define repos where "repos = (if repoId \<noteq> None
      then promiseAll (map (contentRepositories_get client) (case repoId of Some r \<Rightarrow> toArray r | None \<Rightarrow> []))
      else paginator (contentRepositories_list hub))"
  define folders where "folders = (if folderId \<noteq> None
      then promiseAll (map (folders_get client) (case folderId of Some f \<Rightarrow> toArray f | None \<Rightarrow> []))
      else Inr [])"
  show ?thesis
  proof (cases repos)
    case (Inl e)
    with assms hub show ?thesis by (simp add: listArchived_def Let_def repos_def)
  next
    case rs: (Inr rs)
    have rs_in: "set rs \<subseteq> listingsOf client"
    proof
      fix s assume s: "s \<in> set rs"
      show "s \<in> listingsOf client"
      proof (cases "repoId \<noteq> None")
        case True
        with rs
        have "promiseAll (map (contentRepositories_get client) (case repoId of Some r \<Rightarrow> toArray r | None \<Rightarrow> [])) = Inr rs"
          by (simp add: repos_def)
        from promiseAll_Inr [OF this s] obtain i where "contentRepositories_get client i = Inr s"
          by blast
        then show ?thesis
          by (auto simp: listingsOf_def)
      next
        case False
        with rs s hub show ?thesis
          by (auto simp: repos_def listingsOf_def paginator_def)
      qed
    qed
    show ?thesis
    proof (cases folders)
      case (Inl e)
      with assms hub rs show ?thesis
        by (simp add: listArchived_def Let_def repos_def folders_def)
    next
      case fs: (Inr fs)
      have fs_in: "folderId \<noteq> None \<Longrightarrow> set fs \<subseteq> listingsOf client"
      proof
        fix s assume given: "folderId \<noteq> None" and s: "s \<in> set fs"
        from fs given
        have "promiseAll (map (folders_get client) (case folderId of Some f \<Rightarrow> toArray f | None \<Rightarrow> [])) = Inr fs"
          by (simp add: folders_def)
        from promiseAll_Inr [OF this s] obtain i where "folders_get client i = Inr s"
          by blast
        then show "s \<in> listingsOf client"
          by (auto simp: listingsOf_def)
      qed
      define sources where "sources = (if folderId \<noteq> None then fs else rs)"
      have src_in: "set sources \<subseteq> listingsOf client"
        using rs_in fs_in by (simp add: sources_def)
      show ?thesis
      proof (cases "promiseAll (map (\<lambda>source. contentItems_list source ARCHIVED) sources)")
        case (Inl e)
        with assms hub rs fs show ?thesis
          by (simp add: listArchived_def Let_def repos_def folders_def sources_def paginator_def)
      next
        case (Inr pushed)
        with assms hub rs fs have "items' = concat (sched pushed)"
          by (simp add: listArchived_def Let_def repos_def folders_def sources_def paginator_def)
        with Inr src_in show ?thesis by blast
      qed
    qed
  qed
qed

lemma listArchived_status:
  assumes listed: "listArchived client sched hubId repoId folderId = (evs, Inr items')"
      and honest: "honoursStatus client"
      and sched: "\<forall>pushed. set (concat (sched pushed)) \<subseteq> set (concat pushed)"
      and x: "x \<in> set items'"
  shows "status x = ARCHIVED"
proof -
  from listArchived_sources [OF listed] obtain sources pushed where
    src: "set sources \<subseteq> listingsOf client"
    and all: "promiseAll (map (\<lambda>source. contentItems_list source ARCHIVED) sources) = Inr pushed"
    and items': "items' = concat (sched pushed)"
    by blast
  from x items' sched have "x \<in> set (concat pushed)"
    by blast
  then obtain xs where xs: "xs \<in> set pushed" and xin: "x \<in> set xs"
    by auto
  from promiseAll_Inr [OF all xs] obtain s where "s \<in> set sources" and "contentItems_list s ARCHIVED = Inr xs"
    by blast
  with src honest xin show ?thesis
    unfolding honoursStatus_def by blast
qed


lemma filter_js_holds: "filter_js p xs = Inr ys \<Longrightarrow> y \<in> set ys \<Longrightarrow> p y = Inr True"
proof (induction xs arbitrary: ys)
  case Nil
  then show ?case by simp
next
  case (Cons x xs)
  then show ?case
    by (auto split: sum.splits if_splits)
qed

lemma filterContentItems_key_selected:
  assumes "item \<in> set (contentItems (snd (filterContentItems_key eq n t xs)))"
  shows "item \<in> set xs \<and> hasDeliveryKey item \<and> matchesPatterns eq n t item"
proof -
  from assms filterContentItems_key_subset [of eq n t xs]
  have "item \<in> set xs \<and> hasDeliveryKey item"
    by auto
  moreover from assms have "matchesPatterns eq n t item"
    unfolding filterContentItems_key_def matchesPatterns_def noContent_def Let_def
    by (auto split: option.splits sum.splits dest: filter_js_holds)
  ultimately show ?thesis by simp
qed

lemma getContentItems_key_selected:
  assumes sel: "item \<in> set (contentItems (snd (getContentItems_key client sched eq None hubId repoId folderId n t)))"
      and honest: "honoursStatus client"
      and sched: "\<forall>pushed. set (concat (sched pushed)) \<subseteq> set (concat pushed)"
  shows "status item = ARCHIVED \<and> hasDeliveryKey item \<and> matchesPatterns eq n t item"
proof (cases "listArchived client sched hubId repoId folderId")
  case (Pair evs r)
  show ?thesis
  proof (cases r)
    case (Inl e)
    with Pair sel show ?thesis
      by (simp add: getContentItems_key_def noContent_def)
  next
    case (Inr xs)
    with Pair sel
    have "item \<in> set (contentItems (snd (filterContentItems_key eq n t xs)))"
      by (simp add: getContentItems_key_def split: prod.splits)
    then have "item \<in> set xs \<and> hasDeliveryKey item \<and> matchesPatterns eq n t item"
      by (rule filterContentItems_key_selected)
    moreover from this Pair Inr honest sched have "status item = ARCHIVED"
      using listArchived_status [of client sched hubId repoId folderId evs xs item] by simp
    ultimately show ?thesis by simp
  qed
qed

lemma callsOf_map_Call: "callsOf (map (\<lambda>i. Call (f i)) xs) = map f xs"
  by (induction xs) simp_all

lemma listArchived_reads_only:
  "c \<in> set (callsOf (fst (listArchived client sched hubId repoId folderId))) \<Longrightarrow> isRead c"
proof (cases "hubs_get client hubId")
  case (Inl e)
  assume "c \<in> set (callsOf (fst (listArchived client sched hubId repoId folderId)))"
  with Inl show ?thesis by (simp add: listArchived_def)
next
  case hub: (Inr hub)
  assume c: "c \<in> set (callsOf (fst (listArchived client sched hubId repoId folderId)))"
  define repoIds where "repoIds = (case repoId of Some r \<Rightarrow> toArray r | None \<Rightarrow> [])"
  define folderIds where "folderIds = (case folderId of Some f \<Rightarrow> toArray f | None \<Rightarrow> [])"
  define ev1 where "ev1 = [Call (HubsGet hubId)] @
                     (if repoId \<noteq> None then map (\<lambda>i. Call (ContentRepositoriesGet i)) repoIds
                      else [Call (ContentRepositoriesList (id_hub hub))])"
  define ev2 where "ev2 = ev1 @ (if folderId \<noteq> None then map (\<lambda>i. Call (FoldersGet i)) folderIds else [])"
  define repos where "repos = (if repoId \<noteq> None then promiseAll (map (contentRepositories_get client) repoIds)
                               else paginator (contentRepositories_list hub))"
  define folders where "folders = (if folderId \<noteq> None then promiseAll (map (folders_get client) folderIds)
                                   else Inr [])"
  have e1: "\<forall>c \<in> set (callsOf ev1). isRead c"
    by (auto simp: ev1_def callsOf_append callsOf_map_Call)
  from e1 have e2: "\<forall>c \<in> set (callsOf ev2). isRead c"
    by (auto simp: ev2_def callsOf_append callsOf_map_Call)
  have unfolded: "listArchived client sched hubId repoId folderId =
      (case repos of
         Inl e \<Rightarrow> (ev1, Inl e)
       | Inr contentRepositories \<Rightarrow>
           (case folders of
              Inl e \<Rightarrow> (ev2, Inl e)
            | Inr fs \<Rightarrow>
                (let sources = (if folderId \<noteq> None then fs else contentRepositories);
                     ev3 = ev2 @ map (\<lambda>source. Call (ContentItemsList (id_source source) ARCHIVED)) sources
                 in case promiseAll (map (\<lambda>source. paginator (contentItems_list source ARCHIVED)) sources) of
                      Inl e \<Rightarrow> (ev3, Inl e)
                    | Inr pushed \<Rightarrow> (ev3, Inr (concat (sched pushed))))))"
    unfolding listArchived_def repos_def folders_def ev1_def ev2_def repoIds_def folderIds_def Let_def
      hub sum.case
    by (rule refl)
  show ?thesis
  proof (cases repos)
    case (Inl e)
    with e1 c show ?thesis by (simp add: unfolded)
  next
    case rs: (Inr rs)
    show ?thesis
    proof (cases folders)
      case (Inl e)
      with rs e2 c show ?thesis by (simp add: unfolded)
    next
      case fs: (Inr fs)
      define sources where "sources = (if folderId \<noteq> None then fs else rs)"
      define ev3 where "ev3 = ev2 @ map (\<lambda>source. Call (ContentItemsList (id_source source) ARCHIVED)) sources"
      from e2 have e3: "\<forall>c \<in> set (callsOf ev3). isRead c"
        by (auto simp: ev3_def callsOf_append callsOf_map_Call)
      have "fst (listArchived client sched hubId repoId folderId) = ev3"
        using rs fs
        by (simp add: unfolded Let_def sources_def ev3_def split: sum.splits)
      with e3 c show ?thesis by simp
    qed
  qed
qed


lemma listArchived_reads: "Unarchive x \<notin> set (callsOf (fst (listArchived client sched hubId repoId folderId)))"
  using listArchived_reads_only [of "Unarchive x" client sched hubId repoId folderId] by auto

lemma filterContentItems_key_prints:
  "callsOf (fst (filterContentItems_key eq n t xs)) = []"
  unfolding filterContentItems_key_def Let_def
  by (auto split: option.splits sum.splits)

lemma getContentItems_key_reads:
  "Unarchive x \<notin> set (callsOf (fst (getContentItems_key client sched eq i hubId repoId folderId n t)))"
proof (cases i)
  case None
  obtain evs r where L: "listArchived client sched hubId repoId folderId = (evs, r)"
    by (cases "listArchived client sched hubId repoId folderId")
  with listArchived_reads [of x client sched hubId repoId folderId]
  have "Unarchive x \<notin> set (callsOf evs)" by simp
  with None L show ?thesis
    by (cases r) (simp_all add: getContentItems_key_def callsOf_append split_beta filterContentItems_key_prints)
next
  case (Some a)
  then show ?thesis
    by (auto simp: getContentItems_key_def split: sum.splits)
qed

lemma loop_key_unarchived:
  assumes "Unarchive x \<in> set (callsOf (trace (loop_key remote ign xs st)))"
  shows "Unarchive x \<in> set (callsOf (trace st)) \<or> x \<in> set xs"
proof -
  from assms have "Unarchive x \<in> set (callsOf (trace st)) \<or>
      Unarchive x \<in> set (concat (map (\<lambda>(w, item, cs, r). cs) (attempts_key remote ign xs (world st))))"
    by (auto simp: loop_key_trace callsOf_append callsOf_Call)
  then show ?thesis
  proof
    assume "Unarchive x \<in> set (callsOf (trace st))"
    then show ?thesis by simp
  next
    assume "Unarchive x \<in> set (concat (map (\<lambda>(w, item, cs, r). cs) (attempts_key remote ign xs (world st))))"
    then obtain w0 item cs r where a: "(w0, item, cs, r) \<in> set (attempts_key remote ign xs (world st))"
      and c: "Unarchive x \<in> set cs"
      by auto
    from attempts_key_items [OF a] obtain w' cur where "item \<in> set xs"
      and "tryItem_key remote w0 item = (w', cs, cur, r)"
      by blast
    with c tryItem_key_shape [of remote w0 item w' cs cur r] show ?thesis
      by auto
  qed
qed

lemma processItems_key_unarchived:
  assumes "Unarchive x \<in> set (callsOf (events (processItems_key remote asyncQuestion timestamp w xs force silent logFile allContent ign)))"
  shows "x \<in> set xs"
proof -
  let ?listed = "[Console ''The following content items in the archive will have the delivery keys removed:''] @
                 map (\<lambda>contentItem. Console ('' '' @ template (label contentItem) @ '' ('' @ id_item contentItem @ '')'')) xs @
                 [Console (''Total: '' @ template_nat (length xs))]"
  let ?asked = "?listed @ (if \<not> force then [Question (question_key allContent)] else [])"
  let ?st = "loop_key remote ign xs
     \<lparr>world = w, trace = ?asked,
      archiveLog = \<lparr>title = ''Content Items Remove Archived Delivery Key Log - '' @ timestamp @ ''\<newline>'', items = []\<rparr>,
      successCount = 0\<rparr>"
  have quiet: "callsOf ?asked = []"
    by (simp add: callsOf_append callsOf_Console)
  from assms have "Unarchive x \<in> set (callsOf (trace ?st))"
    by (auto simp: processItems_key_def Let_def callsOf_append callsOf_Console split: if_splits option.splits)
  from loop_key_unarchived [OF this] quiet show ?thesis
    by simp
qed

lemma handler_key_unarchived:
  assumes "Unarchive x \<in> set (callsOf (events (handler_key client remote sched eq asyncQuestion timestamp w argv)))"
  shows "x \<in> set (contentItems (snd (getContentItems_key client sched eq (argv_id argv) (argv_hubId argv)
           (argv_repoId argv) (argv_folderId argv) (argv_name argv) (argv_contentType argv))))"
proof -
  obtain ev3 located where G: "getContentItems_key client sched eq (argv_id argv) (argv_hubId argv)
           (argv_repoId argv) (argv_folderId argv) (argv_name argv) (argv_contentType argv) = (ev3, located)"
    by (cases "getContentItems_key client sched eq (argv_id argv) (argv_hubId argv)
           (argv_repoId argv) (argv_folderId argv) (argv_name argv) (argv_contentType argv)")
  with getContentItems_key_reads [of x client sched eq "argv_id argv" "argv_hubId argv"
           "argv_repoId argv" "argv_folderId argv" "argv_name argv" "argv_contentType argv"]
  have quiet: "Unarchive x \<notin> set (callsOf ev3)"
    by simp
  from assms G quiet
  have "\<exists>allContent. Unarchive x \<in> set (callsOf (events (processItems_key remote asyncQuestion timestamp w
          (contentItems located) (argv_force argv) (argv_silent argv) (argv_logFile argv) allContent
          (argv_ignoreError argv))))"
    by (auto simp: handler_key_def Let_def events_after callsOf_append split: if_splits)
  then obtain allContent where "Unarchive x \<in> set (callsOf (events (processItems_key remote asyncQuestion timestamp w
          (contentItems located) (argv_force argv) (argv_silent argv) (argv_logFile argv) allContent
          (argv_ignoreError argv))))"
    by (rule exE)
  then have "x \<in> set (contentItems located)"
    by (rule processItems_key_unarchived)
  with G show ?thesis by simp
qed


lemma filterContentItems_flag_selected:
  assumes "item \<in> set (contentItems (snd (filterContentItems_flag eq n t xs)))"
  shows "item \<in> set xs \<and> hasActive item \<and> matchesPatterns eq n t item"
proof -
  from assms filterContentItems_flag_subset [of eq n t xs]
  have "item \<in> set xs \<and> hasActive item"
    by auto
  moreover from assms have "matchesPatterns eq n t item"
    unfolding filterContentItems_flag_def matchesPatterns_def noContent_def Let_def
    by (auto split: option.splits sum.splits dest: filter_js_holds)
  ultimately show ?thesis by simp
qed

lemma getContentItems_flag_selected:
  assumes sel: "item \<in> set (contentItems (snd (getContentItems_flag client sched eq None hubId repoId folderId n t)))"
      and honest: "honoursStatus client"
      and sched: "\<forall>pushed. set (concat (sched pushed)) \<subseteq> set (concat pushed)"
  shows "status item = ARCHIVED \<and> hasActive item \<and> matchesPatterns eq n t item"
proof (cases "listArchived client sched hubId repoId folderId")
  case (Pair evs r)
  show ?thesis
  proof (cases r)
    case (Inl e)
    with Pair sel show ?thesis
      by (simp add: getContentItems_flag_def noContent_def)
  next
    case (Inr xs)
    with Pair sel
    have "item \<in> set (contentItems (snd (filterContentItems_flag eq n t xs)))"
      by (simp add: getContentItems_flag_def split: prod.splits)
    then have "item \<in> set xs \<and> hasActive item \<and> matchesPatterns eq n t item"
      by (rule filterContentItems_flag_selected)
    moreover from this Pair Inr honest sched have "status item = ARCHIVED"
      using listArchived_status [of client sched hubId repoId folderId evs xs item] by simp
    ultimately show ?thesis by simp
  qed
qed

lemma filterContentItems_flag_prints:
  "callsOf (fst (filterContentItems_flag eq n t xs)) = []"
  unfolding filterContentItems_flag_def Let_def
  by (auto split: option.splits sum.splits)

lemma getContentItems_flag_reads:
  "c \<in> set (callsOf (fst (getContentItems_flag client sched eq i hubId repoId folderId n t))) \<Longrightarrow> isRead c"
proof (cases i)
  case None
  assume c: "c \<in> set (callsOf (fst (getContentItems_flag client sched eq i hubId repoId folderId n t)))"
  obtain evs r where L: "listArchived client sched hubId repoId folderId = (evs, r)"
    by (cases "listArchived client sched hubId repoId folderId")
  with listArchived_reads_only [of _ client sched hubId repoId folderId]
  have "\<forall>c \<in> set (callsOf evs). isRead c" by simp
  with None L c show ?thesis
    by (cases r) (auto simp: getContentItems_flag_def callsOf_append split_beta filterContentItems_flag_prints)
next
  case (Some a)
  assume "c \<in> set (callsOf (fst (getContentItems_flag client sched eq i hubId repoId folderId n t)))"
  with Some show ?thesis
    by (auto simp: getContentItems_flag_def split: sum.splits)
qed

lemma processItems_flag_published:
  assumes "Publish x \<in> set (callsOf (events (processItems_flag remote asyncQuestion timestamp w xs force silent logFile allContent ign)))"
  shows "x \<in> set xs"
proof (cases "xs \<noteq> [] \<and> (force \<or> asyncQuestion (question_flag allContent))")
  case True
  then have "xs \<noteq> []" and "force \<or> asyncQuestion (question_flag allContent)"
    by simp_all
  from processItems_flag_calls [where xs = xs and force = force and asyncQuestion = asyncQuestion
      and allContent = allContent and remote = remote and timestamp = timestamp and w = w
      and silent = silent and logFile = logFile and ign = ign, OF this] assms
  show ?thesis by auto
next
  case False
  with assms show ?thesis
    by (auto simp: processItems_flag_def Let_def callsOf_append callsOf_Console split: if_splits)
qed

lemma handler_flag_published:
  assumes "Publish x \<in> set (callsOf (events (handler_flag client remote sched eq asyncQuestion timestamp env w argv)))"
  shows "x \<in> set (contentItems (snd (getContentItems_flag client sched eq (argv_id argv) (argv_hubId argv)
           (argv_repoId argv) (argv_folderId argv) (argv_name argv) (argv_contentType argv))))"
proof (cases "truthy_opt (argv_id argv) \<and> truthy_strings (argv_name argv)")
  case True
  with assms show ?thesis
    by (auto simp: handler_flag_def Let_def callsOf_append split: if_splits)
next
  case False
  from assms [unfolded handler_flag_calls [OF False]]
       getContentItems_flag_reads [of "Publish x" client sched eq "argv_id argv" "argv_hubId argv"
           "argv_repoId argv" "argv_folderId argv" "argv_name argv" "argv_contentType argv"]
  have "Publish x \<in> set (callsOf (events (processItems_flag remote asyncQuestion timestamp w
        (contentItems (snd (getContentItems_flag client sched eq (argv_id argv) (argv_hubId argv) (argv_repoId argv)
                     (argv_folderId argv) (argv_name argv) (argv_contentType argv))))
        (argv_force argv) (argv_silent argv) (argv_logFile argv)
        (\<not> truthy_opt (argv_id argv) \<and> \<not> truthy_strings (argv_name argv) \<and>
         \<not> truthy_strings (argv_contentType argv) \<and> \<not> truthy_opt (argv_revertLog argv) \<and>
         \<not> truthy_strings (argv_folderId argv) \<and> \<not> truthy_strings (argv_repoId argv))
        (argv_ignoreError argv))))"
    by auto
  then show ?thesis
    by (rule processItems_flag_published)
qed

lemma processItems_key_calls:
  assumes "xs \<noteq> []" and "force \<or> asyncQuestion (question_key allContent)"
  shows "callsOf (events (processItems_key remote asyncQuestion timestamp w xs force silent logFile allContent ign)) =
           concat (map (\<lambda>(w, item, cs, r). cs) (attempts_key remote ign xs w))
       \<and> finalCount (processItems_key remote asyncQuestion timestamp w xs force silent logFile allContent ign) =
           Some (length (filter (\<lambda>(w, item, cs, r). r = None) (attempts_key remote ign xs w)))"
proof -
  have go: "\<not> (\<not> force \<and> \<not> asyncQuestion (question_key allContent))"
    using assms(2) by simp
  show ?thesis
    using assms(1) go
    by (simp add: processItems_key_def Let_def loop_key_trace loop_key_count
          callsOf_append callsOf_Call callsOf_Console split: option.splits del: loop_key.simps attempts_key.simps)
qed

lemma honoursStatus_hubClient: "honoursStatus hubClient"
proof -
  have "listingsOf hubClient = {repo1}"
    by (auto simp: listingsOf_def hubClient_def split: if_splits)
  then show ?thesis
    by (auto simp: honoursStatus_def repo1_def)
qed

lemma getContentItems_key_hub:
  "getContentItems_key hubClient inOrder equalsLiteral None ''hub'' None None None None =
     ([Call (HubsGet ''hub''), Call (ContentRepositoriesList ''hub''), Call (ContentItemsList ''repo1'' ARCHIVED)],
      \<lparr>contentItems = [itemA, itemB], missingContent = False\<rparr>)"
  by (simp add: getContentItems_key_def listArchived_hub filterContentItems_key_def hasDeliveryKey_def
        itemA_def itemB_def itemN_def archivedItem_def)

lemma handler_key_hub_calls:
  "callsOf (events (handler_key hubClient (failingOn ''B'') inOrder equalsLiteral yes ''1700000000000'' ()
      (argvOf None None))) =
   [HubsGet ''hub'', ContentRepositoriesList ''hub'', ContentItemsList ''repo1'' ARCHIVED,
    Unarchive itemA, Update (clearDeliveryKey (itemA\<lparr>status := ACTIVE\<rparr>)),
    Archive (clearDeliveryKey (itemA\<lparr>status := ACTIVE\<rparr>)), Unarchive itemB]"
  by (simp add: handler_key_def argvOf_def Let_def getContentItems_key_hub events_after processItems_key_def
        tryItem_key_itemA tryItem_key_itemB callsOf_append callsOf_Call callsOf_Console)

lemma attempts_key_first:
  "\<exists>cs r rest. attempts_key remote ign (item # xs) w = (w, item, Unarchive item # cs, r) # rest"
proof (cases "tryItem_key remote w item")
  case (fields w' cs cur r)
  from tryItem_key_shape [OF fields] fields show ?thesis
    by (cases r) auto
qed

lemma handler_key_by_id:
  assumes id: "argv_id argv = Some i" and given: "i \<noteq> []"
      and noname: "\<not> truthy_strings (argv_name argv)"
      and got: "contentItems_get client i = Inr item"
      and go: "argv_force argv \<or> asyncQuestion (question_key False)"
  shows "Unarchive item \<in> set (callsOf (events (handler_key client remote sched eq asyncQuestion timestamp w argv)))"
proof -
  have guard: "\<not> (truthy_opt (argv_id argv) \<and> truthy_strings (argv_name argv))"
    using noname by simp
  have sel: "getContentItems_key client sched eq (argv_id argv) (argv_hubId argv) (argv_repoId argv)
                     (argv_folderId argv) (argv_name argv) (argv_contentType argv) =
      ([Call (ContentItemsGet i)], \<lparr>contentItems = [item], missingContent = False\<rparr>)"
    using id got by (simp add: getContentItems_key_def)
  have all: "(\<not> truthy_opt (argv_id argv) \<and> \<not> truthy_strings (argv_name argv) \<and>
         \<not> truthy_strings (argv_contentType argv) \<and> \<not> truthy_opt (argv_revertLog argv) \<and>
         \<not> truthy_strings (argv_folderId argv) \<and> \<not> truthy_strings (argv_repoId argv)) = False"
    using id given by simp
  have one: "[item] \<noteq> []" by simp
  from processItems_key_calls [where xs = "[item]" and force = "argv_force argv" and asyncQuestion = asyncQuestion
      and allContent = False and remote = remote and timestamp = timestamp and w = w
      and silent = "argv_silent argv" and logFile = "argv_logFile argv" and ign = "argv_ignoreError argv",
      OF one go, THEN conjunct1]
  have "callsOf (events (processItems_key remote asyncQuestion timestamp w [item] (argv_force argv)
          (argv_silent argv) (argv_logFile argv) False (argv_ignoreError argv))) =
        concat (map (\<lambda>(w, item, cs, r). cs) (attempts_key remote (argv_ignoreError argv) [item] w))" .
  moreover obtain cs r rest where
    "attempts_key remote (argv_ignoreError argv) [item] w = (w, item, Unarchive item # cs, r) # rest"
    using attempts_key_first [of remote "argv_ignoreError argv" item "[]" w] by blast
  ultimately have "Unarchive item \<in> set (callsOf (events (processItems_key remote asyncQuestion timestamp w [item]
          (argv_force argv) (argv_silent argv) (argv_logFile argv) False (argv_ignoreError argv))))"
    by simp
  then show ?thesis
    unfolding handler_key_calls [OF guard] sel all by simp
qed

lemma handler_flag_by_id:
  assumes id: "argv_id argv = Some i" and given: "i \<noteq> []"
      and noname: "\<not> truthy_strings (argv_name argv)"
      and got: "contentItems_get client i = Inr item"
      and go: "argv_force argv \<or> asyncQuestion (question_flag False)"
  shows "Publish item \<in> set (callsOf (events (handler_flag client remote sched eq asyncQuestion timestamp env w argv)))"
proof -
  have guard: "\<not> (truthy_opt (argv_id argv) \<and> truthy_strings (argv_name argv))"
    using noname by simp
  have sel: "getContentItems_flag client sched eq (argv_id argv) (argv_hubId argv) (argv_repoId argv)
                     (argv_folderId argv) (argv_name argv) (argv_contentType argv) =
      ([Call (ContentItemsGet i)], \<lparr>contentItems = [item], missingContent = False\<rparr>)"
    using id got by (simp add: getContentItems_flag_def)
  have all: "(\<not> truthy_opt (argv_id argv) \<and> \<not> truthy_strings (argv_name argv) \<and>
         \<not> truthy_strings (argv_contentType argv) \<and> \<not> truthy_opt (argv_revertLog argv) \<and>
         \<not> truthy_strings (argv_folderId argv) \<and> \<not> truthy_strings (argv_repoId argv)) = False"
    using id given by simp
  have one: "[item] \<noteq> []" by simp
  from processItems_flag_calls [where xs = "[item]" and force = "argv_force argv" and asyncQuestion = asyncQuestion
      and allContent = False and remote = remote and timestamp = timestamp and w = w
      and silent = "argv_silent argv" and logFile = "argv_logFile argv" and ign = "argv_ignoreError argv",
      OF one go]
  have "Publish item \<in> set (callsOf (events (processItems_flag remote asyncQuestion timestamp w [item]
          (argv_force argv) (argv_silent argv) (argv_logFile argv) False (argv_ignoreError argv))))"
    by simp
  then show ?thesis
    unfolding handler_flag_calls [OF guard] sel all by simp
qed


lemma tryItem_key_success_cleared:
  assumes "tryItem_key remote w item = (w', cs, cur, None)"
  shows "\<exists>u v x w2 w3.
           remote w (Unarchive item) = (Inr u, w2)
         \<and> remote w2 (Update (u\<lparr>body := (body u)\<lparr>meta := (meta (body u))\<lparr>deliveryKey := Null\<rparr>\<rparr>\<rparr>)) = (Inr v, w3)
         \<and> remote w3 (Archive v) = (Inr x, w')
         \<and> cs = [Unarchive item,
                  Update (u\<lparr>body := (body u)\<lparr>meta := (meta (body u))\<lparr>deliveryKey := Null\<rparr>\<rparr>\<rparr>),
                  Archive v]"
  using tryItem_key_success [OF assms] unfolding clearDeliveryKey_def by blast

lemma getContentItems_flag_hub:
  "getContentItems_flag hubClient inOrder equalsLiteral None ''hub'' None None None None =
     ([Call (HubsGet ''hub''), Call (ContentRepositoriesList ''hub''), Call (ContentItemsList ''repo1'' ARCHIVED)],
      \<lparr>contentItems = [itemA, itemN, itemB], missingContent = False\<rparr>)"
  by (simp add: getContentItems_flag_def listArchived_hub filterContentItems_flag_def hasActive_def
        itemA_def itemB_def itemN_def archivedItem_def)

lemma handler_flag_hub_calls:
  "callsOf (events (handler_flag hubClient (failingOn ''B'') inOrder equalsLiteral yes ''1700000000000'' []
      () (argvOf None None))) =
   [HubsGet ''hub'', ContentRepositoriesList ''hub'', ContentItemsList ''repo1'' ARCHIVED,
    Publish itemA, Publish itemN, Publish itemB]"
proof -
  have guard: "\<not> (truthy_opt (argv_id (argvOf None None)) \<and> truthy_strings (argv_name (argvOf None None)))"
    by (simp add: argvOf_def)
  have run: "callsOf (events (processItems_flag (failingOn ''B'') yes ''1700000000000'' () [itemA, itemN, itemB]
      True False (Some ''log-<DATE>.txt'') True False)) = map Publish [itemA, itemN, itemB]"
    by (rule processItems_flag_calls) simp_all
  show ?thesis
    unfolding handler_flag_calls [OF guard]
    by (simp add: argvOf_def getContentItems_flag_hub run)
qed

text \<open>
  Claim C1, as amended. For a run without an item ID, and a service whose listings honour
  the status asked for: every item the batch mutator of either command touches (every
  item the delivery-key command calls unarchive on, every item the active-flag command
  calls publish on) is held by the run as ARCHIVED and matches the active filter
  predicate, that is, it has the target field and matches the name or content-type
  patterns given. An item given by a non-empty ID, without a name, is touched as fetched
  in every confirmed run, whatever its status and fields. In the delivery-key command the
  remote calls of every confirmed run are those of the loop's iterations, in order, and
  the success counter is the number of iterations that did not throw; and an iteration
  that did not throw has called unarchive on the item, update on the returned copy with
  \<^verbatim>\<open>deliveryKey\<close> set to \<^verbatim>\<open>null\<close>, and archive on what update returned, in this
  order, each call having returned. So the last call of the delivery-key command on a
  successfully processed item is an archive call that succeeded.
\<close>

theorem touched_items_archived_and_restored:
  "(honoursStatus client \<and> (\<forall>pushed. set (concat (sched pushed)) \<subseteq> set (concat pushed)) \<and>
    argv_id argv = None \<longrightarrow>
      (\<forall>x. Unarchive x \<in> set (callsOf (events (handler_key client remote sched eq asyncQuestion timestamp w argv))) \<longrightarrow>
            status x = ARCHIVED \<and> hasDeliveryKey x \<and>
            matchesPatterns eq (argv_name argv) (argv_contentType argv) x)
    \<and> (\<forall>x. Publish x \<in> set (callsOf (events (handler_flag client remote sched eq asyncQuestion timestamp env w argv))) \<longrightarrow>
            status x = ARCHIVED \<and> hasActive x \<and>
            matchesPatterns eq (argv_name argv) (argv_contentType argv) x))
   \<and> (\<forall>i item. argv_id argv = Some i \<and> i \<noteq> [] \<and> \<not> truthy_strings (argv_name argv) \<and>
          contentItems_get client i = Inr item \<longrightarrow>
          (argv_force argv \<or> asyncQuestion (question_key False) \<longrightarrow>
             Unarchive item \<in> set (callsOf (events (handler_key client remote sched eq asyncQuestion timestamp w argv))))
        \<and> (argv_force argv \<or> asyncQuestion (question_flag False) \<longrightarrow>
             Publish item \<in> set (callsOf (events (handler_flag client remote sched eq asyncQuestion timestamp env w argv)))))
   \<and> (\<forall>xs force allContent silent logFile ign.
          xs \<noteq> [] \<and> (force \<or> asyncQuestion (question_key allContent)) \<longrightarrow>
          callsOf (events (processItems_key remote asyncQuestion timestamp w xs force silent logFile allContent ign)) =
            concat (map (\<lambda>(w, item, cs, r). cs) (attempts_key remote ign xs w))
          \<and> finalCount (processItems_key remote asyncQuestion timestamp w xs force silent logFile allContent ign) =
            Some (length (filter (\<lambda>(w, item, cs, r). r = None) (attempts_key remote ign xs w))))
   \<and> (\<forall>xs ign w1 item cs. (w1, item, cs, None) \<in> set (attempts_key remote ign xs w) \<longrightarrow>
          item \<in> set xs \<and>
          (\<exists>u v x w2 w3 w4.
             remote w1 (Unarchive item) = (Inr u, w2)
           \<and> remote w2 (Update (u\<lparr>body := (body u)\<lparr>meta := (meta (body u))\<lparr>deliveryKey := Null\<rparr>\<rparr>\<rparr>)) = (Inr v, w3)
           \<and> remote w3 (Archive v) = (Inr x, w4)
           \<and> cs = [Unarchive item,
                    Update (u\<lparr>body := (body u)\<lparr>meta := (meta (body u))\<lparr>deliveryKey := Null\<rparr>\<rparr>\<rparr>),
                    Archive v]))"
proof -
  have enumerated: "honoursStatus client \<and> (\<forall>pushed. set (concat (sched pushed)) \<subseteq> set (concat pushed)) \<and>
    argv_id argv = None \<longrightarrow>
      (\<forall>x. Unarchive x \<in> set (callsOf (events (handler_key client remote sched eq asyncQuestion timestamp w argv))) \<longrightarrow>
            status x = ARCHIVED \<and> hasDeliveryKey x \<and>
            matchesPatterns eq (argv_name argv) (argv_contentType argv) x)
    \<and> (\<forall>x. Publish x \<in> set (callsOf (events (handler_flag client remote sched eq asyncQuestion timestamp env w argv))) \<longrightarrow>
            status x = ARCHIVED \<and> hasActive x \<and>
            matchesPatterns eq (argv_name argv) (argv_contentType argv) x)"
  proof (intro impI conjI allI)
    fix x
    assume hyps: "honoursStatus client \<and> (\<forall>pushed. set (concat (sched pushed)) \<subseteq> set (concat pushed)) \<and>
      argv_id argv = None"
    assume "Unarchive x \<in> set (callsOf (events (handler_key client remote sched eq asyncQuestion timestamp w argv)))"
    then have "x \<in> set (contentItems (snd (getContentItems_key client sched eq (argv_id argv) (argv_hubId argv)
           (argv_repoId argv) (argv_folderId argv) (argv_name argv) (argv_contentType argv))))"
      by (rule handler_key_unarchived)
    with hyps
    have "x \<in> set (contentItems (snd (getContentItems_key client sched eq None (argv_hubId argv)
           (argv_repoId argv) (argv_folderId argv) (argv_name argv) (argv_contentType argv))))"
      by simp
    from getContentItems_key_selected [OF this] hyps
    show "status x = ARCHIVED" and "hasDeliveryKey x"
      and "matchesPatterns eq (argv_name argv) (argv_contentType argv) x"
      by simp_all
  next
    fix x
    assume hyps: "honoursStatus client \<and> (\<forall>pushed. set (concat (sched pushed)) \<subseteq> set (concat pushed)) \<and>
      argv_id argv = None"
    assume "Publish x \<in> set (callsOf (events (handler_flag client remote sched eq asyncQuestion timestamp env w argv)))"
    then have "x \<in> set (contentItems (snd (getContentItems_flag client sched eq (argv_id argv) (argv_hubId argv)
           (argv_repoId argv) (argv_folderId argv) (argv_name argv) (argv_contentType argv))))"
      by (rule handler_flag_published)
    with hyps
    have "x \<in> set (contentItems (snd (getContentItems_flag client sched eq None (argv_hubId argv)
           (argv_repoId argv) (argv_folderId argv) (argv_name argv) (argv_contentType argv))))"
      by simp
    from getContentItems_flag_selected [OF this] hyps
    show "status x = ARCHIVED" and "hasActive x"
      and "matchesPatterns eq (argv_name argv) (argv_contentType argv) x"
      by simp_all
  qed
  have by_id: "\<forall>i item. argv_id argv = Some i \<and> i \<noteq> [] \<and> \<not> truthy_strings (argv_name argv) \<and>
          contentItems_get client i = Inr item \<longrightarrow>
          (argv_force argv \<or> asyncQuestion (question_key False) \<longrightarrow>
             Unarchive item \<in> set (callsOf (events (handler_key client remote sched eq asyncQuestion timestamp w argv))))
        \<and> (argv_force argv \<or> asyncQuestion (question_flag False) \<longrightarrow>
             Publish item \<in> set (callsOf (events (handler_flag client remote sched eq asyncQuestion timestamp env w argv))))"
  proof (intro allI impI conjI)
    fix i item
    assume h: "argv_id argv = Some i \<and> i \<noteq> [] \<and> \<not> truthy_strings (argv_name argv) \<and>
          contentItems_get client i = Inr item"
    assume go: "argv_force argv \<or> asyncQuestion (question_key False)"
    from h have "argv_id argv = Some i" and "i \<noteq> []" and "\<not> truthy_strings (argv_name argv)"
      and "contentItems_get client i = Inr item"
      by simp_all
    from handler_key_by_id [where asyncQuestion = asyncQuestion, OF this go]
    show "Unarchive item \<in> set (callsOf (events (handler_key client remote sched eq asyncQuestion timestamp w argv)))" .
  next
    fix i item
    assume h: "argv_id argv = Some i \<and> i \<noteq> [] \<and> \<not> truthy_strings (argv_name argv) \<and>
          contentItems_get client i = Inr item"
    assume go: "argv_force argv \<or> asyncQuestion (question_flag False)"
    from h have "argv_id argv = Some i" and "i \<noteq> []" and "\<not> truthy_strings (argv_name argv)"
      and "contentItems_get client i = Inr item"
      by simp_all
    from handler_flag_by_id [where asyncQuestion = asyncQuestion, OF this go]
    show "Publish item \<in> set (callsOf (events (handler_flag client remote sched eq asyncQuestion timestamp env w argv)))" .
  qed
  have runs: "\<forall>xs force allContent silent logFile ign.
          xs \<noteq> [] \<and> (force \<or> asyncQuestion (question_key allContent)) \<longrightarrow>
          callsOf (events (processItems_key remote asyncQuestion timestamp w xs force silent logFile allContent ign)) =
            concat (map (\<lambda>(w, item, cs, r). cs) (attempts_key remote ign xs w))
          \<and> finalCount (processItems_key remote asyncQuestion timestamp w xs force silent logFile allContent ign) =
            Some (length (filter (\<lambda>(w, item, cs, r). r = None) (attempts_key remote ign xs w)))"
  proof (intro allI impI)
    fix xs :: "ContentItem list" and force allContent silent logFile ign
    assume run: "xs \<noteq> [] \<and> (force \<or> asyncQuestion (question_key allContent))"
    then have "xs \<noteq> []" and "force \<or> asyncQuestion (question_key allContent)"
      by simp_all
    from processItems_key_calls [where xs = xs and force = force and asyncQuestion = asyncQuestion
      and allContent = allContent and remote = remote and timestamp = timestamp and w = w
      and silent = silent and logFile = logFile and ign = ign, OF this]
    show "callsOf (events (processItems_key remote asyncQuestion timestamp w xs force silent logFile allContent ign)) =
            concat (map (\<lambda>(w, item, cs, r). cs) (attempts_key remote ign xs w))
          \<and> finalCount (processItems_key remote asyncQuestion timestamp w xs force silent logFile allContent ign) =
            Some (length (filter (\<lambda>(w, item, cs, r). r = None) (attempts_key remote ign xs w)))" .
  qed
  have restored: "\<forall>xs ign w1 item cs. (w1, item, cs, None) \<in> set (attempts_key remote ign xs w) \<longrightarrow>
          item \<in> set xs \<and>
          (\<exists>u v x w2 w3 w4.
             remote w1 (Unarchive item) = (Inr u, w2)
           \<and> remote w2 (Update (u\<lparr>body := (body u)\<lparr>meta := (meta (body u))\<lparr>deliveryKey := Null\<rparr>\<rparr>\<rparr>)) = (Inr v, w3)
           \<and> remote w3 (Archive v) = (Inr x, w4)
           \<and> cs = [Unarchive item,
                    Update (u\<lparr>body := (body u)\<lparr>meta := (meta (body u))\<lparr>deliveryKey := Null\<rparr>\<rparr>\<rparr>),
                    Archive v])"
  proof (intro allI impI conjI)
    fix xs ign w1 item cs
    assume a: "(w1, item, cs, None) \<in> set (attempts_key remote ign xs w)"
    from attempts_key_items [OF a] obtain w' cur where mem: "item \<in> set xs"
      and t: "tryItem_key remote w1 item = (w', cs, cur, None)"
      by blast
    from mem show "item \<in> set xs" .
    from tryItem_key_success_cleared [OF t]
    show "\<exists>u v x w2 w3 w4.
             remote w1 (Unarchive item) = (Inr u, w2)
           \<and> remote w2 (Update (u\<lparr>body := (body u)\<lparr>meta := (meta (body u))\<lparr>deliveryKey := Null\<rparr>\<rparr>\<rparr>)) = (Inr v, w3)
           \<and> remote w3 (Archive v) = (Inr x, w4)
           \<and> cs = [Unarchive item,
                    Update (u\<lparr>body := (body u)\<lparr>meta := (meta (body u))\<lparr>deliveryKey := Null\<rparr>\<rparr>\<rparr>),
                    Archive v]"
      by blast
  qed
  show ?thesis
    by (rule conjI [OF enumerated conjI [OF by_id conjI [OF runs restored]]])
qed


theorem touched_items_archived_and_restored_witness:
  "Unarchive itemA \<in> set (callsOf (events (handler_key hubClient (failingOn ''B'') inOrder equalsLiteral yes
      ''1700000000000'' () (argvOf None None))))
   \<and> status itemA = ARCHIVED \<and> hasDeliveryKey itemA \<and> matchesPatterns equalsLiteral None None itemA
   \<and> Publish itemN \<in> set (callsOf (events (handler_flag hubClient (failingOn ''B'') inOrder equalsLiteral yes
      ''1700000000000'' [] () (argvOf None None))))
   \<and> status itemN = ARCHIVED \<and> hasActive itemN
   \<and> contentItems_get hubClient ''N'' = Inr itemN \<and> \<not> hasDeliveryKey itemN
   \<and> Unarchive itemN \<in> set (callsOf (events (handler_key hubClient (failingOn ''B'') inOrder equalsLiteral yes
      ''1700000000000'' () (argvOf (Some ''N'') None))))
   \<and> finalCount (processItems_key (failingOn ''B'') yes ''1700000000000'' () [itemA, itemB, itemC]
        True False None False True) = Some 2
   \<and> Update \<lparr>id_item = ''A'', label = Str ''item A'', status = ACTIVE,
              body = \<lparr>meta = \<lparr>schema = ''http://example.com/banner'', deliveryKey = Null\<rparr>, active = True\<rparr>,
              lastPublishedVersion = Some 1\<rparr>
       \<in> set (callsOf (events (handler_key hubClient (failingOn ''B'') inOrder equalsLiteral yes
      ''1700000000000'' () (argvOf None None))))"
proof -
  have hyps: "honoursStatus hubClient \<and> (\<forall>pushed. set (concat (inOrder pushed)) \<subseteq> set (concat pushed)) \<and>
      argv_id (argvOf None None) = None"
    by (simp add: honoursStatus_hubClient inOrder_def argvOf_def)
  note all = touched_items_archived_and_restored
      [of hubClient inOrder "argvOf None None" "failingOn ''B''" equalsLiteral yes "''1700000000000''" "()" "[]"]
  note enumerated = all [THEN conjunct1, rule_format, OF hyps]
  have touched: "Unarchive itemA \<in> set (callsOf (events (handler_key hubClient (failingOn ''B'') inOrder
      equalsLiteral yes ''1700000000000'' () (argvOf None None))))"
    by (simp add: handler_key_hub_calls)
  from enumerated [THEN conjunct1, rule_format, OF touched]
  have selected: "status itemA = ARCHIVED \<and> hasDeliveryKey itemA \<and> matchesPatterns equalsLiteral None None itemA"
    by (simp add: argvOf_def)
  have published: "Publish itemN \<in> set (callsOf (events (handler_flag hubClient (failingOn ''B'') inOrder
      equalsLiteral yes ''1700000000000'' [] () (argvOf None None))))"
    by (simp add: handler_flag_hub_calls)
  from enumerated [THEN conjunct2, rule_format, OF published]
  have selected_flag: "status itemN = ARCHIVED \<and> hasActive itemN"
    by simp
  have got: "contentItems_get hubClient ''N'' = Inr itemN"
    by (simp add: hubClient_def)
  have nokey: "\<not> hasDeliveryKey itemN"
    by (simp add: hasDeliveryKey_def itemN_def archivedItem_def)
  have given: "argv_id (argvOf (Some ''N'') None) = Some ''N'' \<and> ''N'' \<noteq> [] \<and>
      \<not> truthy_strings (argv_name (argvOf (Some ''N'') None)) \<and> contentItems_get hubClient ''N'' = Inr itemN"
    using got by (simp add: argvOf_def)
  have forced: "argv_force (argvOf (Some ''N'') None) \<or> yes (question_key False)"
    by (simp add: argvOf_def)
  from touched_items_archived_and_restored
      [of hubClient inOrder "argvOf (Some ''N'') None" "failingOn ''B''" equalsLiteral yes "''1700000000000''" "()" "[]",
       THEN conjunct2, THEN conjunct1, rule_format, OF given, THEN conjunct1, rule_format, OF forced]
  have by_id: "Unarchive itemN \<in> set (callsOf (events (handler_key hubClient (failingOn ''B'') inOrder
      equalsLiteral yes ''1700000000000'' () (argvOf (Some ''N'') None))))" .
  have attempts: "attempts_key (failingOn ''B'') True [itemA, itemB, itemC] () =
       [((), itemA, [Unarchive itemA, Update (clearDeliveryKey (itemA\<lparr>status := ACTIVE\<rparr>)),
                     Archive (clearDeliveryKey (itemA\<lparr>status := ACTIVE\<rparr>))], None),
        ((), itemB, [Unarchive itemB], Some (Thrown ''Error: 500'')),
        ((), itemC, [Unarchive itemC, Update (clearDeliveryKey (itemC\<lparr>status := ACTIVE\<rparr>)),
                     Archive (clearDeliveryKey (itemC\<lparr>status := ACTIVE\<rparr>))], None)]"
    by (simp add: tryItem_key_itemA tryItem_key_itemB tryItem_key_itemC)
  have confirmed: "[itemA, itemB, itemC] \<noteq> [] \<and> (True \<or> yes (question_key False))"
    by simp
  from all [THEN conjunct2, THEN conjunct2, THEN conjunct1, rule_format, OF confirmed, THEN conjunct2]
  have "finalCount (processItems_key (failingOn ''B'') yes ''1700000000000'' () [itemA, itemB, itemC]
        True False None False True) =
      Some (length (filter (\<lambda>(w, item, cs, r). r = None) (attempts_key (failingOn ''B'') True [itemA, itemB, itemC] ())))"
    .
  then have counted: "finalCount (processItems_key (failingOn ''B'') yes ''1700000000000'' () [itemA, itemB, itemC]
        True False None False True) = Some 2"
    unfolding attempts by simp
  have cleared: "Update \<lparr>id_item = ''A'', label = Str ''item A'', status = ACTIVE,
              body = \<lparr>meta = \<lparr>schema = ''http://example.com/banner'', deliveryKey = Null\<rparr>, active = True\<rparr>,
              lastPublishedVersion = Some 1\<rparr>
       \<in> set (callsOf (events (handler_key hubClient (failingOn ''B'') inOrder equalsLiteral yes
      ''1700000000000'' () (argvOf None None))))"
    by (simp add: handler_key_hub_calls clearDeliveryKey_def itemA_def archivedItem_def)
  from touched selected published selected_flag got nokey by_id counted cleared
  show ?thesis by simp
qed

text \<open>
  The claim as stated covers every run. Item \<open>N\<close> has no delivery key, so it does not
  match the filter predicate; given by ID it is still unarchived, updated and archived,
  and logged as done.
\<close>

theorem item_by_id_counterexample:
  "contentItems_get hubClient ''N'' = Inr itemN
   \<and> \<not> hasDeliveryKey itemN
   \<and> Update (clearDeliveryKey (itemN\<lparr>status := ACTIVE\<rparr>)) \<in>
       set (callsOf (events (handler_key hubClient (failingOn ''B'') inOrder equalsLiteral yes ''1700000000000'' ()
         (argvOf (Some ''N'') None))))
   \<and> finalLog (handler_key hubClient (failingOn ''B'') inOrder equalsLiteral yes ''1700000000000'' ()
         (argvOf (Some ''N'') None)) =
       [ACTION ''REMOVED-ARCHIVED-DELIVERY-KEY'' ''N:undefined\<newline>'']"
proof -
  have got: "contentItems_get hubClient ''N'' = Inr itemN"
    by (simp add: hubClient_def)
  have nokey: "\<not> hasDeliveryKey itemN"
    by (simp add: hasDeliveryKey_def itemN_def archivedItem_def)
  have sel: "getContentItems_key hubClient inOrder equalsLiteral (Some ''N'') ''hub'' None None None None =
      ([Call (ContentItemsGet ''N'')], \<lparr>contentItems = [itemN], missingContent = False\<rparr>)"
    by (simp add: getContentItems_key_def hubClient_def)
  have "callsOf (events (handler_key hubClient (failingOn ''B'') inOrder equalsLiteral yes ''1700000000000'' ()
        (argvOf (Some ''N'') None))) =
      [ContentItemsGet ''N'', Unarchive itemN, Update (clearDeliveryKey (itemN\<lparr>status := ACTIVE\<rparr>)),
       Archive (clearDeliveryKey (itemN\<lparr>status := ACTIVE\<rparr>))]"
    by (simp add: handler_key_def sel tryItem_key_itemN argvOf_def Let_def events_after processItems_key_def
          callsOf_append callsOf_Call callsOf_Console)
  then have pushed: "Update (clearDeliveryKey (itemN\<lparr>status := ACTIVE\<rparr>)) \<in>
       set (callsOf (events (handler_key hubClient (failingOn ''B'') inOrder equalsLiteral yes ''1700000000000'' ()
         (argvOf (Some ''N'') None))))"
    by simp
  have "finalLog (handler_key hubClient (failingOn ''B'') inOrder equalsLiteral yes ''1700000000000'' ()
         (argvOf (Some ''N'') None)) =
       [ACTION ''REMOVED-ARCHIVED-DELIVERY-KEY''
          (id_item (clearDeliveryKey (itemN\<lparr>status := ACTIVE\<rparr>)) @ '':'' @
           template (deliveryKey (meta (body itemN))) @ ''\<newline>'')]"
    by (simp add: handler_key_def sel tryItem_key_itemN argvOf_def Let_def processItems_key_def addAction_def)
  then have "finalLog (handler_key hubClient (failingOn ''B'') inOrder equalsLiteral yes ''1700000000000'' ()
         (argvOf (Some ''N'') None)) =
       [ACTION ''REMOVED-ARCHIVED-DELIVERY-KEY'' ''N:undefined\<newline>'']"
    by (simp add: itemN_def archivedItem_def clearDeliveryKey_def)
  with got nokey pushed show ?thesis by simp
qed

end
